theory Spec2Isabelle
  imports Main
begin

section \<open>Go strings\<close>

text \<open>
  A Go \<^verbatim>\<open>string\<close> is a sequence of bytes, and \<^verbatim>\<open>len\<close> counts bytes; it is modelled
  as \<^typ>\<open>string\<close>, whose \<^const>\<open>length\<close> counts bytes too. The functions of package
  \<^verbatim>\<open>strings\<close> and the \<^verbatim>\<open>%d\<close> verb of \<^verbatim>\<open>fmt.Sprintf\<close> that the program uses are
  written out here under their Go names.
\<close>

fun HasPrefix :: "string \<Rightarrow> string \<Rightarrow> bool" where
  "HasPrefix s [] = True"
| "HasPrefix [] (p # ps) = False"
| "HasPrefix (c # cs) (p # ps) = (c = p \<and> HasPrefix cs ps)"

definition HasSuffix :: "string \<Rightarrow> string \<Rightarrow> bool" where
  "HasSuffix s suffix = HasPrefix (rev s) (rev suffix)"

fun Contains :: "string \<Rightarrow> string \<Rightarrow> bool" where
  "Contains [] substr = (substr = [])"
| "Contains (c # cs) substr = (HasPrefix (c # cs) substr \<or> Contains cs substr)"

definition TrimSuffix :: "string \<Rightarrow> string \<Rightarrow> string" where
  "TrimSuffix s suffix =
     (if HasSuffix s suffix then take (length s - length suffix) s else s)"

text \<open>
  \<^verbatim>\<open>strings.TrimSpace\<close> removes leading and trailing white space as \<^verbatim>\<open>unicode.IsSpace\<close>
  defines it. \<open>spaceRunes\<close> lists the UTF-8 encodings of those code points: the six ASCII
  ones, U+0085, U+00A0, U+1680, U+2000 to U+200A, U+2028, U+2029, U+202F, U+205F, U+3000.
\<close>

definition spaceRunes :: "string list" where
  "spaceRunes =
     [[CHR 0x09], [CHR 0x0A], [CHR 0x0B], [CHR 0x0C], [CHR 0x0D], [CHR 0x20],
      [CHR 0xC2, CHR 0x85], [CHR 0xC2, CHR 0xA0],
      [CHR 0xE1, CHR 0x9A, CHR 0x80],
      [CHR 0xE2, CHR 0x80, CHR 0x80], [CHR 0xE2, CHR 0x80, CHR 0x81],
      [CHR 0xE2, CHR 0x80, CHR 0x82], [CHR 0xE2, CHR 0x80, CHR 0x83],
      [CHR 0xE2, CHR 0x80, CHR 0x84], [CHR 0xE2, CHR 0x80, CHR 0x85],
      [CHR 0xE2, CHR 0x80, CHR 0x86], [CHR 0xE2, CHR 0x80, CHR 0x87],
      [CHR 0xE2, CHR 0x80, CHR 0x88], [CHR 0xE2, CHR 0x80, CHR 0x89],
      [CHR 0xE2, CHR 0x80, CHR 0x8A], [CHR 0xE2, CHR 0x80, CHR 0xA8],
      [CHR 0xE2, CHR 0x80, CHR 0xA9], [CHR 0xE2, CHR 0x80, CHR 0xAF],
      [CHR 0xE2, CHR 0x81, CHR 0x9F], [CHR 0xE3, CHR 0x80, CHR 0x80]]"

fun leadingSpace :: "string list \<Rightarrow> string \<Rightarrow> nat" where
  "leadingSpace [] s = 0"
| "leadingSpace (r # rs) s = (if HasPrefix s r then length r else leadingSpace rs s)"

fun trailingSpace :: "string list \<Rightarrow> string \<Rightarrow> nat" where
  "trailingSpace [] s = 0"
| "trailingSpace (r # rs) s = (if HasSuffix s r then length r else trailingSpace rs s)"

function TrimLeftSpace :: "string \<Rightarrow> string" where
  "TrimLeftSpace s =
     (if s = [] \<or> leadingSpace spaceRunes s = 0 then s
      else TrimLeftSpace (drop (leadingSpace spaceRunes s) s))"
  by pat_completeness auto
termination
  by (relation "measure length") auto

function TrimRightSpace :: "string \<Rightarrow> string" where
  "TrimRightSpace s =
     (if s = [] \<or> trailingSpace spaceRunes s = 0 then s
      else TrimRightSpace (take (length s - trailingSpace spaceRunes s) s))"
  by pat_completeness auto
termination
  by (relation "measure length") auto

declare TrimLeftSpace.simps [simp del]
declare TrimRightSpace.simps [simp del]

definition TrimSpace :: "string \<Rightarrow> string" where
  "TrimSpace s = TrimRightSpace (TrimLeftSpace s)"

text \<open>\<^verbatim>\<open>strings.Split(s, "\n")\<close>: the pieces between line feeds; one piece for a string without any.\<close>

fun Split_newline :: "string \<Rightarrow> string list" where
  "Split_newline [] = [[]]"
| "Split_newline (c # cs) =
     (if c = CHR 0x0A then [] # Split_newline cs
      else (case Split_newline cs of
              [] \<Rightarrow> [[c]]
            | l # ls \<Rightarrow> (c # l) # ls))"

text \<open>The \<^verbatim>\<open>%d\<close> verb: decimal digits, with a minus sign for a negative number.\<close>

fun digits :: "nat \<Rightarrow> string" where
  "digits n =
     (if n < 10 then [''0123456789'' ! n]
      else digits (n div 10) @ [''0123456789'' ! (n mod 10)])"

declare digits.simps [simp del]

definition Sprintf_d :: "int \<Rightarrow> string" where
  "Sprintf_d n = (if n < 0 then CHR ''-'' # digits (nat (- n)) else digits (nat n))"

text \<open>
  \<^verbatim>\<open>strings.ToUpper\<close> on the ASCII letters; bytes outside \<open>a\<close> to \<open>z\<close> are kept (Go also maps
  the letters beyond ASCII, which only changes the wording of a prompt).
\<close>

definition upperChar :: "char \<Rightarrow> char" where
  "upperChar c =
     (let n = (of_char c :: nat) in if 97 \<le> n \<and> n \<le> 122 then char_of (n - 32) else c)"

definition ToUpper :: "string \<Rightarrow> string" where
  "ToUpper s = map upperChar s"

section \<open>Data model (package models)\<close>

text \<open>
  The structs of \<^verbatim>\<open>pkg/models/agent.go\<close>, without their time stamps. Go's \<^verbatim>\<open>int\<close> and
  \<^verbatim>\<open>int64\<close> are modelled as \<^typ>\<open>int\<close>: the program only compares them, counts rounds
  and prints them. A Go \<^verbatim>\<open>error\<close> is modelled by its message.
\<close>

type_synonym error = string

record Agent =
  ID :: int
  Name :: string
  ProviderType :: string
  ProviderURL :: string
  APIToken :: string
  ModelName :: string
  TimeoutSeconds :: int

record Discussion =
  ID :: int
  Topic :: string
  FinalSummary :: string
  Status :: string
  AgentIDs :: "int list"
  ModeratorID :: "int option"
  MaxRounds :: int
  Language :: string
  MaxCharLimit :: int

record DiscussionLog =
  ID :: int
  DiscussionID :: int
  AgentID :: int
  Content :: string
  Status :: string
  ResponseTime :: int
  IsModerator :: bool

record AgentResponse =
  Content :: string
  Success :: bool
  ErrorMessage :: string
  ResponseTime :: int

section \<open>Provider adapter (agent client)\<close>

subsection \<open>Provider kind\<close>

definition detectProviderType :: "string \<Rightarrow> string" where
  "detectProviderType url =
     (if Contains url ''ollama'' \<or> Contains url ''localhost:11434'' then ''ollama''
      else if Contains url ''openai.com'' then ''openai''
      else if Contains url ''anthropic.com'' then ''anthropic''
      else if Contains url ''googleapis.com'' then ''google''
      else ''custom'')"

text \<open>
  \<open>CallAgent\<close> computes \<^verbatim>\<open>providerType := detectProviderType(agent.ProviderURL)\<close> and
  switches on it to one of five request builders. \<open>backendFor\<close> is that switch, with the
  builder it selects as its value, and \<open>CallAgent_backend\<close> the builder that \<open>CallAgent\<close>
  runs for an agent.
\<close>

datatype backend = CallOllama | CallOpenAI | CallAnthropic | CallGoogle | CallCustom

definition backendFor :: "string \<Rightarrow> backend" where
  "backendFor providerType =
     (if providerType = ''ollama'' then CallOllama
      else if providerType = ''openai'' then CallOpenAI
      else if providerType = ''anthropic'' then CallAnthropic
      else if providerType = ''google'' then CallGoogle
      else if providerType = ''custom'' then CallCustom
      else CallCustom)"

definition CallAgent_backend :: "Agent \<Rightarrow> backend" where
  "CallAgent_backend agent =
     (let providerType = detectProviderType (ProviderURL agent) in backendFor providerType)"

subsection \<open>Endpoints and the chat-completion call\<close>

definition getChatEndpoints :: "string \<Rightarrow> string list" where
  "getChatEndpoints agentURL =
     (let baseURL = TrimSuffix (TrimSpace agentURL) ''/'' in
      if Contains baseURL ''/chat/completions'' \<or> Contains baseURL ''/generate'' then [baseURL]
      else if HasSuffix baseURL ''/v1'' then [baseURL @ ''/chat/completions'']
      else [baseURL @ ''/v1/chat/completions'', baseURL @ ''/chat/completions'', baseURL])"

record Message =
  Role :: string
  Content :: string

record OpenAIRequest =
  Model :: string
  Messages :: "Message list"
  Stream :: bool

text \<open>
  A request body is kept as the Go value that \<^verbatim>\<open>json.Marshal\<close> encodes: the chat request of
  \<open>callOpenAI\<close>, or the map with the keys \<^verbatim>\<open>prompt\<close>, \<^verbatim>\<open>model\<close> and \<^verbatim>\<open>stream\<close> of
  \<open>callGenericCompletion\<close>. Encoding either cannot fail, so the \<^verbatim>\<open>err != nil\<close> branch after
  \<^verbatim>\<open>json.Marshal\<close> has no counterpart.
\<close>

datatype body = ChatBody OpenAIRequest | CompletionBody string string bool

record Request =
  Method :: string
  URL :: string
  Header :: "(string \<times> string) list"
  Body :: body

text \<open>
  The network is a parameter. \<open>Failed err\<close> stands for each of the three ways in which a
  call gets no response (the request cannot be built, cannot be sent, or its body cannot be
  read); \<open>Reply code body\<close> is a response read in full. Decoding a body with
  \<^verbatim>\<open>json.Unmarshal\<close> is a parameter too: into \<^verbatim>\<open>OpenAIResponse\<close>, of which the program reads
  the message contents of the choices, and into a \<^verbatim>\<open>map[string]interface{}\<close>.
\<close>

datatype http_reply = Failed error | Reply int string

datatype json =
  JNull | JBool bool | JNumber string | JString string
| JArray "json list" | JObject "(string \<times> json) list"

record HTTP =
  Do :: "Request \<Rightarrow> http_reply"
  UnmarshalOpenAI :: "string \<Rightarrow> error + string list"
  UnmarshalMap :: "string \<Rightarrow> error + (string \<times> json) list"

definition setAuthHeaders :: "Agent \<Rightarrow> (string \<times> string) list" where
  "setAuthHeaders agent =
     (let providerType = detectProviderType (ProviderURL agent);
          token = TrimSpace (APIToken agent) in
      if token = [] then []
      else if providerType = ''anthropic''
        then [(''x-api-key'', token), (''anthropic-version'', ''2023-06-01'')]
      else if providerType = ''google'' then [(''x-goog-api-key'', token)]
      else [(''Authorization'', ''Bearer '' @ token)])"

definition postRequest :: "Agent \<Rightarrow> string \<Rightarrow> body \<Rightarrow> Request" where
  "postRequest agent endpoint b =
     \<lparr>Method = ''POST'', URL = endpoint,
      Header = (''Content-Type'', ''application/json'') # setAuthHeaders agent,
      Body = b\<rparr>"

definition openAIMessages :: "string \<Rightarrow> string \<Rightarrow> Message list" where
  "openAIMessages prompt contextStr =
     [(if contextStr \<noteq> []
       then \<lparr>Role = ''system'',
             Content = ''You are participating in a multi-agent debate. Here's the context from previous agents:\<newline>''
               @ contextStr @ ''\<newline>\<newline>Please respond to the following:''\<rparr>
       else \<lparr>Role = ''system'',
             Content = ''You are participating in a multi-agent debate. Please provide your response to the following:''\<rparr>),
      \<lparr>Role = ''user'', Content = prompt\<rparr>]"

text \<open>
  A call returns the pair \<^verbatim>\<open>(response, err)\<close> and, as its visible effect, the endpoints it
  has tried, in order. \<open>ResponseTime\<close> is filled in by \<open>CallAgent\<close> from the clock and
  is 0 here.

  \<open>tryEndpoints\<close> is the loop of \<open>callOpenAI\<close> over the endpoints, with \<^verbatim>\<open>lastErr\<close> as its
  state; it returns at the first endpoint that answers with status 200 and a body that
  decodes to at least one choice.
\<close>

type_synonym call_result = "(AgentResponse \<times> error option) \<times> string list"

fun tryEndpoints ::
  "HTTP \<Rightarrow> Agent \<Rightarrow> body \<Rightarrow> string list \<Rightarrow> error option \<Rightarrow> string list \<Rightarrow> call_result" where
  "tryEndpoints http agent jsonData [] lastErr tried =
     ((\<lparr>AgentResponse.Content = [], Success = False,
        ErrorMessage = ''Failed to call OpenAI-compatible API: ''
          @ (case lastErr of None \<Rightarrow> ''<nil>'' | Some e \<Rightarrow> e),
        ResponseTime = 0\<rparr>, lastErr), tried)"
| "tryEndpoints http agent jsonData (endpoint # endpoints) lastErr tried =
     (case Do http (postRequest agent endpoint jsonData) of
        Failed err \<Rightarrow> tryEndpoints http agent jsonData endpoints (Some err) (tried @ [endpoint])
      | Reply code body \<Rightarrow>
          if code \<noteq> 200
          then tryEndpoints http agent jsonData endpoints
                 (Some (''API returned status '' @ Sprintf_d code @ '': '' @ body))
                 (tried @ [endpoint])
          else (case UnmarshalOpenAI http body of
                  Inl err \<Rightarrow>
                    tryEndpoints http agent jsonData endpoints (Some err) (tried @ [endpoint])
                | Inr choices \<Rightarrow>
                    (case choices of
                       [] \<Rightarrow> tryEndpoints http agent jsonData endpoints
                               (Some ''no choices in response'') (tried @ [endpoint])
                     | c # cs \<Rightarrow>
                         ((\<lparr>AgentResponse.Content = c, Success = True, ErrorMessage = [],
                            ResponseTime = 0\<rparr>, None), tried @ [endpoint]))))"

definition callOpenAI :: "HTTP \<Rightarrow> Agent \<Rightarrow> string \<Rightarrow> string \<Rightarrow> call_result" where
  "callOpenAI http agent prompt contextStr =
     (let reqBody = \<lparr>Model = ModelName agent, Messages = openAIMessages prompt contextStr,
                     Stream = False\<rparr>;
          endpoints = getChatEndpoints (ProviderURL agent)
      in tryEndpoints http agent (ChatBody reqBody) endpoints None [])"

text \<open>
  \<open>tryEndpoint\<close> posts one completion request and reads the text out of the decoded
  object: the key \<^verbatim>\<open>text\<close>, else \<^verbatim>\<open>response\<close>, else the message content of the first of
  \<^verbatim>\<open>choices\<close>. \<open>Inl\<close> is its \<^verbatim>\<open>(nil, err)\<close>.
\<close>

definition extractContent :: "(string \<times> json) list \<Rightarrow> string" where
  "extractContent result =
     (case map_of result ''text'' of
        Some (JString text) \<Rightarrow> text
      | _ \<Rightarrow>
        (case map_of result ''response'' of
           Some (JString response) \<Rightarrow> response
         | _ \<Rightarrow>
           (case map_of result ''choices'' of
              Some (JArray (JObject choice # choices)) \<Rightarrow>
                (case map_of choice ''message'' of
                   Some (JObject message) \<Rightarrow>
                     (case map_of message ''content'' of
                        Some (JString text) \<Rightarrow> text
                      | _ \<Rightarrow> [])
                 | _ \<Rightarrow> [])
            | _ \<Rightarrow> [])))"

definition tryEndpoint :: "HTTP \<Rightarrow> Agent \<Rightarrow> string \<Rightarrow> body \<Rightarrow> error + AgentResponse" where
  "tryEndpoint http agent endpoint jsonData =
     (case Do http (postRequest agent endpoint jsonData) of
        Failed err \<Rightarrow> Inl err
      | Reply code body \<Rightarrow>
          if code \<noteq> 200
          then Inl (''endpoint '' @ endpoint @ '' returned status '' @ Sprintf_d code
                     @ '': '' @ body)
          else (case UnmarshalMap http body of
                  Inl err \<Rightarrow> Inl (''failed to parse response: '' @ err)
                | Inr result \<Rightarrow>
                    let content = extractContent result in
                    if content = [] then Inl ''could not extract content from response''
                    else Inr \<lparr>AgentResponse.Content = content, Success = True,
                              ErrorMessage = [], ResponseTime = 0\<rparr>))"

definition callGenericCompletion :: "HTTP \<Rightarrow> Agent \<Rightarrow> string \<Rightarrow> string \<Rightarrow> call_result" where
  "callGenericCompletion http agent prompt contextStr =
     (let fullPrompt =
            (if contextStr \<noteq> []
             then ''Previous context from other agents:\<newline>'' @ contextStr
                    @ ''\<newline>\<newline>Your task:\<newline>'' @ prompt
             else prompt);
          jsonData = CompletionBody fullPrompt (ModelName agent) False;
          baseURL = (if HasSuffix (ProviderURL agent) ''/v1''
                     then TrimSuffix (ProviderURL agent) ''/v1'' else ProviderURL agent);
          endpoint = baseURL @ ''/v1/chat/completions''
      in case tryEndpoint http agent endpoint jsonData of
           Inr response \<Rightarrow> ((response, None), [endpoint])
         | Inl err \<Rightarrow>
             ((\<lparr>AgentResponse.Content = [], Success = False,
                ErrorMessage = ''All endpoints failed for custom provider'',
                ResponseTime = 0\<rparr>, Some ''custom provider unreachable''), [endpoint]))"

definition callCustom :: "HTTP \<Rightarrow> Agent \<Rightarrow> string \<Rightarrow> string \<Rightarrow> call_result" where
  "callCustom http agent prompt contextStr =
     (case callOpenAI http agent prompt contextStr of
        ((response, err), tried) \<Rightarrow>
          if err = None \<and> Success response then ((response, None), tried)
          else (case callGenericCompletion http agent prompt contextStr of
                  (r, tried') \<Rightarrow> (r, tried @ tried')))"

text \<open>
  For stating what the loop does: the content that \<open>tryEndpoints\<close> accepts from an
  endpoint, if it accepts the endpoint's answer at all.
\<close>

definition chatContent :: "HTTP \<Rightarrow> Agent \<Rightarrow> body \<Rightarrow> string \<Rightarrow> string option" where
  "chatContent http agent jsonData endpoint =
     (case Do http (postRequest agent endpoint jsonData) of
        Failed err \<Rightarrow> None
      | Reply code body \<Rightarrow>
          if code = 200
          then (case UnmarshalOpenAI http body of
                  Inl err \<Rightarrow> None
                | Inr choices \<Rightarrow> (case choices of [] \<Rightarrow> None | c # cs \<Rightarrow> Some c))
          else None)"

section \<open>Persistence (package database)\<close>

text \<open>
  The SQLite tables as in-memory tables. A row holds the columns that the statements of
  the package write and read: a discussion row has no column for the round count, the
  language or the character limit, and an agent row none for the provider type, so a
  record read back has Go's zero value in these fields. \<^verbatim>\<open>AUTOINCREMENT\<close> is a counter
  per table, the \<^verbatim>\<open>CHECK\<close> constraints on the two status columns are kept, and the rows of
  \<^verbatim>\<open>discussion_logs\<close> are kept in insertion order, which is the order of their creation
  time. The foreign keys of the schema are not enforced, since the connection never
  switches them on. Faults of the database driver are outside the model: an operation
  fails only where a row is missing or a constraint is violated.
\<close>

record AgentRow =
  col_name :: string
  col_provider_url :: string
  col_api_token :: string
  col_model_name :: string
  col_timeout_seconds :: int

record DiscussionRow =
  col_topic :: string
  col_final_summary :: string
  col_status :: string
  col_agent_ids :: "int list"
  col_moderator_id :: "int option"

record DB =
  t_agents :: "int \<rightharpoonup> AgentRow"
  t_discussions :: "int \<rightharpoonup> DiscussionRow"
  t_discussion_logs :: "DiscussionLog list"
  seq_discussions :: int
  seq_discussion_logs :: int

definition GetAgent :: "DB \<Rightarrow> int \<Rightarrow> error + Agent" where
  "GetAgent db agentID =
     (case t_agents db agentID of
        None \<Rightarrow> Inl ''agent not found''
      | Some r \<Rightarrow>
          Inr \<lparr>Agent.ID = agentID, Name = col_name r, ProviderType = [], ProviderURL = col_provider_url r,
               APIToken = col_api_token r, ModelName = col_model_name r,
               TimeoutSeconds = col_timeout_seconds r\<rparr>)"

definition discussionRow :: "Discussion \<Rightarrow> DiscussionRow" where
  "discussionRow discussion =
     \<lparr>col_topic = Topic discussion, col_final_summary = FinalSummary discussion,
      col_status = Discussion.Status discussion, col_agent_ids = AgentIDs discussion,
      col_moderator_id = ModeratorID discussion\<rparr>"

definition checkDiscussionStatus :: "string \<Rightarrow> bool" where
  "checkDiscussionStatus s = (s = ''running'' \<or> s = ''completed'' \<or> s = ''failed'')"

definition checkLogStatus :: "string \<Rightarrow> bool" where
  "checkLogStatus s = (s = ''success'' \<or> s = ''timeout'' \<or> s = ''error'')"

text \<open>
  An operation that takes a pointer and fills in the identifier returns the record with
  the identifier next to the new database.
\<close>

definition InsertDiscussion :: "DB \<Rightarrow> Discussion \<Rightarrow> error + Discussion \<times> DB" where
  "InsertDiscussion db discussion =
     (if \<not> checkDiscussionStatus (Discussion.Status discussion)
      then Inl ''failed to insert discussion: CHECK constraint failed''
      else let newID = seq_discussions db + 1 in
           Inr (discussion\<lparr>Discussion.ID := newID\<rparr>,
                db\<lparr>t_discussions := (t_discussions db)(newID \<mapsto> discussionRow discussion),
                   seq_discussions := newID\<rparr>))"

definition GetDiscussion :: "DB \<Rightarrow> int \<Rightarrow> error + Discussion" where
  "GetDiscussion db discussionID =
     (case t_discussions db discussionID of
        None \<Rightarrow> Inl ''discussion not found''
      | Some r \<Rightarrow>
          Inr \<lparr>Discussion.ID = discussionID, Topic = col_topic r, FinalSummary = col_final_summary r,
               Status = col_status r, AgentIDs = col_agent_ids r, ModeratorID = col_moderator_id r,
               MaxRounds = 0, Language = [], MaxCharLimit = 0\<rparr>)"

definition UpdateDiscussion :: "DB \<Rightarrow> Discussion \<Rightarrow> error + DB" where
  "UpdateDiscussion db discussion =
     (if \<not> checkDiscussionStatus (Discussion.Status discussion)
      then Inl ''failed to update discussion: CHECK constraint failed''
      else if t_discussions db (Discussion.ID discussion) = None then Inl ''discussion not found''
      else Inr (db\<lparr>t_discussions :=
                     (t_discussions db)(Discussion.ID discussion \<mapsto> discussionRow discussion)\<rparr>))"

definition InsertDiscussionLog :: "DB \<Rightarrow> DiscussionLog \<Rightarrow> error + DiscussionLog \<times> DB" where
  "InsertDiscussionLog db log =
     (if \<not> checkLogStatus (DiscussionLog.Status log)
      then Inl ''failed to insert discussion log: CHECK constraint failed''
      else let newID = seq_discussion_logs db + 1;
               log' = log\<lparr>DiscussionLog.ID := newID\<rparr> in
           Inr (log', db\<lparr>t_discussion_logs := t_discussion_logs db @ [log'],
                         seq_discussion_logs := newID\<rparr>))"

definition GetDiscussionLogs :: "DB \<Rightarrow> int \<Rightarrow> DiscussionLog list" where
  "GetDiscussionLogs db discussionID =
     filter (\<lambda>log. DiscussionID log = discussionID) (t_discussion_logs db)"

section \<open>Debate engine\<close>

subsection \<open>Prompts and the final summary\<close>

definition buildPrompt :: "Discussion \<Rightarrow> string" where
  "buildPrompt discussion =
     ''You are an agent in a multi-agent debate about: '' @ [CHR 0x22]
       @ Topic discussion
       @ [CHR 0x22] @ ''\<newline>\<newline>''
       @ ''Language of discussion: ''
       @ Language discussion
       @ ''\<newline>''
       @ ''Maximum response length: ''
       @ Sprintf_d (MaxCharLimit discussion)
       @ '' characters\<newline>\<newline>''
       @ ''This is the first round. Please provide your initial perspective on this topic.\<newline>\<newline>''
       @ ''Guidelines:\<newline>''
       @ ''- Provide a clear, thoughtful response\<newline>''
       @ ''- Consider multiple perspectives\<newline>''
       @ ''- Be specific and provide reasoning\<newline>''
       @ ''- DO NOT EXCEED ''
       @ Sprintf_d (MaxCharLimit discussion)
       @ '' CHARACTERS\<newline>''
       @ ''- RESPOND ONLY IN ''
       @ ToUpper (Language discussion)
       @ ''\<newline>''"

definition buildRoundPrompt :: "Discussion \<Rightarrow> int \<Rightarrow> int \<Rightarrow> int \<Rightarrow> string" where
  "buildRoundPrompt discussion round agentNum totalAgents =
     ''This is Round ''
       @ Sprintf_d round
       @ '' of the debate about: '' @ [CHR 0x22]
       @ Topic discussion
       @ [CHR 0x22] @ ''\<newline>\<newline>''
       @ ''Language of discussion: ''
       @ Language discussion
       @ ''\<newline>''
       @ ''Maximum response length: ''
       @ Sprintf_d (MaxCharLimit discussion)
       @ '' characters\<newline>\<newline>''
       @ ''You are Agent #''
       @ Sprintf_d agentNum
       @ ''. Please respond to the previous arguments from other agents.\<newline>\<newline>''
       @ ''Guidelines:\<newline>''
       @ ''- Address specific points made by other agents\<newline>''
       @ ''- Defend or modify your position based on new information\<newline>''
       @ ''- Find common ground where possible\<newline>''
       @ ''- Move the discussion toward resolution\<newline>''
       @ ''- DO NOT EXCEED ''
       @ Sprintf_d (MaxCharLimit discussion)
       @ '' CHARACTERS\<newline>''
       @ ''- RESPOND ONLY IN ''
       @ ToUpper (Language discussion)
       @ ''\<newline>''"

definition buildModeratorPrompt :: "Discussion \<Rightarrow> string \<Rightarrow> string \<Rightarrow> string" where
  "buildModeratorPrompt discussion moderatorType contextStr =
     (let basePrompt =
       ''You are the moderator for a multi-agent debate on: '' @ [CHR 0x22]
       @ Topic discussion
       @ [CHR 0x22] @ ''\<newline>Language: ''
       @ Language discussion
       @ ''\<newline>Max length: ''
       @ Sprintf_d (MaxCharLimit discussion)
       @ '' characters\<newline>\<newline>''
      in
      if moderatorType = ''opening'' then basePrompt @
       ''Your role is to:\<newline>1. Welcome participants and set the tone\<newline>2. Briefly explain the debate format and rules\<newline>3. Remind agents to be respectful and constructive\<newline>4. Introduce the topic and initial considerations\<newline>\<newline>Please provide a concise opening statement (2-3 paragraphs). \<newline>RESPOND ONLY IN ''
       @ ToUpper (Language discussion)
       @ ''. DO NOT EXCEED ''
       @ Sprintf_d (MaxCharLimit discussion)
       @ '' CHARACTERS.''
      else if moderatorType = ''interim'' then basePrompt @
       ''An agent just responded with:\<newline>\<newline>'' @ [CHR 0x22]
       @ contextStr
       @ [CHR 0x22] @ ''\<newline>\<newline>Your role is to:\<newline>1. Briefly acknowledge the key points made\<newline>2. Keep the discussion focused and on track\<newline>3. Encourage the next agent to build upon or challenge these points\<newline>4. Maintain a respectful and constructive tone\<newline>\<newline>Please provide a brief moderation comment (1-2 paragraphs).\<newline>RESPOND ONLY IN ''
       @ ToUpper (Language discussion)
       @ ''. DO NOT EXCEED ''
       @ Sprintf_d (MaxCharLimit discussion)
       @ '' CHARACTERS.''
      else if moderatorType = ''round_summary'' then basePrompt @
       ''Round completed.\<newline>\<newline>Your role is to:\<newline>1. Summarize the key arguments and perspectives from this round\<newline>2. Highlight areas of agreement and disagreement\<newline>3. Point out any logical fallacies or particularly strong arguments\<newline>4. Set up the next round of discussion\<newline>\<newline>Please provide a concise round summary (2-3 paragraphs).\<newline>RESPOND ONLY IN ''
       @ ToUpper (Language discussion)
       @ ''. DO NOT EXCEED ''
       @ Sprintf_d (MaxCharLimit discussion)
       @ '' CHARACTERS.''
      else if moderatorType = ''closing'' then basePrompt @
       ''The debate has concluded. Your role is to:\<newline>1. Provide a balanced summary of all positions presented\<newline>2. Identify the strongest arguments and key insights\<newline>3. Highlight areas of consensus and remaining disagreement\<newline>4. Offer final thoughts on the topic and the quality of the discussion\<newline>\<newline>Please provide a comprehensive closing statement (3-4 paragraphs).\<newline>RESPOND ONLY IN ''
       @ ToUpper (Language discussion)
       @ ''. DO NOT EXCEED ''
       @ Sprintf_d (MaxCharLimit discussion)
       @ '' CHARACTERS.''
      else basePrompt @
       ''Please provide appropriate moderation in ''
       @ Language discussion
       @ ''. DO NOT EXCEED ''
       @ Sprintf_d (MaxCharLimit discussion)
       @ '' CHARACTERS.'')"

definition getModeratorRole :: "string \<Rightarrow> string" where
  "getModeratorRole moderatorType =
     (if moderatorType = ''opening'' then ''Opening Remarks''
      else if moderatorType = ''interim'' then ''Interim Moderation''
      else if moderatorType = ''round_summary'' then ''Round Summary''
      else if moderatorType = ''closing'' then ''Closing Remarks''
      else ''Moderation'')"

text \<open>
  The preview loop of \<open>generateSummary\<close>:
  \<^verbatim>\<open>for i := 0; i < 5 && i < len(lines); i++\<close>, appending a bullet for a line that is not
  blank.
\<close>

function previewLoop :: "string list \<Rightarrow> nat \<Rightarrow> string \<Rightarrow> string" where
  "previewLoop lines i summary =
     (if i < 5 \<and> i < length lines
      then previewLoop lines (i + 1)
             (if TrimSpace (lines ! i) \<noteq> []
              then summary @ ''- '' @ TrimSpace (lines ! i) @ ''\<newline>''
              else summary)
      else summary)"
  by pat_completeness auto
termination
  by (relation "measure (\<lambda>(lines, i, summary). 5 - i)") auto

declare previewLoop.simps [simp del]

definition generateSummary :: "string \<Rightarrow> string \<Rightarrow> string" where
  "generateSummary topic context =
     (if context = [] then ''No responses were generated during this debate.''
      else
        let summary = ''Debate Summary for: '' @ topic @ ''\<newline>\<newline>''
              @ ''The debate involved multiple AI agents discussing this topic. ''
              @ ''Each agent provided their perspective and responded to others' arguments. ''
              @ ''For detailed discussion, please review the individual agent responses.\<newline>\<newline>'';
            lines = Split_newline context
        in if length lines > 5
           then let summary = previewLoop lines 0 (summary @ ''Key points discussed:\<newline>'')
                in if length lines > 5
                   then summary @ ''... (see full discussion for more details)''
                   else summary
           else summary)"

subsection \<open>The scheduler\<close>

text \<open>
  The provider adapter is a parameter of the scheduler: \<open>CallAgent k agent prompt context\<close>
  is the pair \<^verbatim>\<open>(response, err)\<close> that the \<open>k\<close>-th call of the debate returns (in every
  path of the adapter the response is not nil). An exceeded deadline is one of the errors.
\<close>

type_synonym adapter = "nat \<Rightarrow> Agent \<Rightarrow> string \<Rightarrow> string \<Rightarrow> AgentResponse \<times> error option"

datatype event = LogEvent DiscussionLog | DiscussionEvent Discussion

text \<open>
  A record of one participant turn: the round, the agent, the context string handed to
  \<open>CallAgent\<close> and the log entry of the turn (none if the turn was aborted).
\<close>

record Turn =
  turnRound :: int
  speaker :: Agent
  priorContext :: string
  entry :: "DiscussionLog option"

text \<open>
  The state of one run of \<open>executeDebate\<close>: the database, the values handed to
  \<open>broadcast\<close>, the number of adapter calls made, the participant turns taken, and the
  local variables \<^verbatim>\<open>debateContext\<close>, \<^verbatim>\<open>roundActive\<close> and \<^verbatim>\<open>roundCount\<close>. \<open>panicked\<close> is
  set when the run has hit a run-time panic; nothing but the deferred function runs after
  that.
\<close>

record Exec =
  database :: DB
  events :: "event list"
  ncalls :: nat
  turns :: "Turn list"
  debateContext :: string
  roundActive :: bool
  roundCount :: int
  panicked :: bool

text \<open>
  Saving a log entry and broadcasting it when it was saved; the entry comes back with the
  identifier the database gave it.
\<close>

definition saveLog :: "DiscussionLog \<Rightarrow> Exec \<Rightarrow> DiscussionLog \<times> Exec" where
  "saveLog logEntry st =
     (case InsertDiscussionLog (database st) logEntry of
        Inl err \<Rightarrow> (logEntry, st)
      | Inr (saved, db') \<Rightarrow>
          (saved, st\<lparr>database := db', events := events st @ [LogEvent saved]\<rparr>))"

definition callModerator ::
  "adapter \<Rightarrow> Discussion \<Rightarrow> Agent \<Rightarrow> string \<Rightarrow> string \<Rightarrow> Exec \<Rightarrow> bool \<times> Exec" where
  "callModerator CallAgent discussion moderator moderatorType contextStr st =
     (let prompt = buildModeratorPrompt discussion moderatorType contextStr;
          (response, err) = CallAgent (ncalls st) moderator prompt [];
          st = st\<lparr>ncalls := ncalls st + 1\<rparr>;
          logEntry = \<lparr>DiscussionLog.ID = 0, DiscussionID = Discussion.ID discussion,
                      AgentID = Agent.ID moderator, Content = [], Status = ''success'',
                      ResponseTime = AgentResponse.ResponseTime response,
                      IsModerator = True\<rparr>;
          logEntry =
            (case err of
               Some e \<Rightarrow> logEntry\<lparr>DiscussionLog.Status := ''error'',
                                    DiscussionLog.Content := ''Moderator Error: '' @ e\<rparr>
             | None \<Rightarrow>
                 if \<not> Success response
                 then logEntry\<lparr>DiscussionLog.Status := ''error'',
                                DiscussionLog.Content :=
                                  ''Moderator Error: '' @ ErrorMessage response\<rparr>
                 else logEntry\<lparr>DiscussionLog.Content :=
                                  ''[Moderator - '' @ getModeratorRole moderatorType
                                    @ '']\<newline>'' @ AgentResponse.Content response\<rparr>);
          (saved, st) = saveLog logEntry st
      in (DiscussionLog.Status saved = ''success'', st))"

text \<open>The line that introduces a participant's words in the debate context.\<close>

definition contextHeader :: "int \<Rightarrow> Agent \<Rightarrow> string" where
  "contextHeader round agent =
     ''Round '' @ Sprintf_d round @ '' - Agent '' @ Name agent
       @ '' ('' @ Sprintf_d (Agent.ID agent) @ ''):''"

text \<open>
  The body of the loop over the agents. The slice expression
  \<^verbatim>\<open>content[:discussion.MaxCharLimit]\<close> is reached when the content is longer than the
  limit, and panics when the limit is negative.
\<close>

definition agentTurn ::
  "adapter \<Rightarrow> Discussion \<Rightarrow> Agent option \<Rightarrow> int \<Rightarrow> nat \<Rightarrow> nat \<Rightarrow> Agent \<Rightarrow> Exec \<Rightarrow> Exec" where
  "agentTurn CallAgent discussion moderator round n i agent st =
     (let prompt = (if round > 1 then buildRoundPrompt discussion round (int i + 1) (int n)
                    else buildPrompt discussion);
          contextStr = debateContext st;
          (response, err) = CallAgent (ncalls st) agent prompt contextStr;
          st = st\<lparr>ncalls := ncalls st + 1\<rparr>;
          logEntry = \<lparr>DiscussionLog.ID = 0, DiscussionID = Discussion.ID discussion,
                      AgentID = Agent.ID agent, Content = [], Status = ''success'',
                      ResponseTime = AgentResponse.ResponseTime response,
                      IsModerator = False\<rparr>;
          content = AgentResponse.Content response
      in if err = None \<and> Success response
            \<and> int (length content) > MaxCharLimit discussion \<and> MaxCharLimit discussion < 0
         then st\<lparr>turns := turns st @ [\<lparr>turnRound = round, speaker = agent,
                                          priorContext = contextStr, entry = None\<rparr>],
                 panicked := True\<rparr>
         else
           let (logEntry, st) =
                 (case err of
                    Some e \<Rightarrow>
                      (logEntry\<lparr>DiscussionLog.Status := ''error'',
                                 DiscussionLog.Content := ''Error: '' @ e\<rparr>, st)
                  | None \<Rightarrow>
                      if \<not> Success response
                      then (logEntry\<lparr>DiscussionLog.Status := ''error'',
                                       DiscussionLog.Content :=
                                         ''Error: '' @ ErrorMessage response\<rparr>, st)
                      else
                        let content =
                              (if int (length content) > MaxCharLimit discussion
                               then take (nat (MaxCharLimit discussion)) content
                               else content)
                        in (logEntry\<lparr>DiscussionLog.Content := content\<rparr>,
                            st\<lparr>roundActive := True,
                               debateContext :=
                                 (if debateContext st \<noteq> [] then debateContext st @ ''\<newline>\<newline>''
                                  else debateContext st)
                                 @ contextHeader round agent @ ''\<newline>'' @ content\<rparr>));
               (saved, st) = saveLog logEntry st;
               st = st\<lparr>turns := turns st @ [\<lparr>turnRound = round, speaker = agent,
                                               priorContext = contextStr,
                                               entry = Some saved\<rparr>]\<rparr>
           in case moderator of
                Some m \<Rightarrow>
                  if int i < int n - 1
                  then snd (callModerator CallAgent discussion m ''interim''
                              (AgentResponse.Content response) st)
                  else st
              | None \<Rightarrow> st)"

text \<open>\<^verbatim>\<open>for i, agent := range agents\<close>, from index \<open>i\<close> on; \<open>n\<close> is \<^verbatim>\<open>len(agents)\<close>.\<close>

fun agentsLoop ::
  "adapter \<Rightarrow> Discussion \<Rightarrow> Agent option \<Rightarrow> int \<Rightarrow> nat \<Rightarrow> nat \<Rightarrow> Agent list \<Rightarrow> Exec \<Rightarrow> Exec" where
  "agentsLoop CallAgent discussion moderator round n i [] st = st"
| "agentsLoop CallAgent discussion moderator round n i (agent # rest) st =
     (let st = agentTurn CallAgent discussion moderator round n i agent st
      in if panicked st then st
         else agentsLoop CallAgent discussion moderator round n (i + 1) rest st)"

text \<open>One pass of the loop over the rounds: the agents in order, then the round summary.\<close>

definition runRound ::
  "adapter \<Rightarrow> Discussion \<Rightarrow> Agent list \<Rightarrow> Agent option \<Rightarrow> int \<Rightarrow> Exec \<Rightarrow> Exec" where
  "runRound CallAgent discussion agents moderator round st =
     (let st = agentsLoop CallAgent discussion moderator round (length agents) 0 agents
                 (st\<lparr>roundActive := False\<rparr>)
      in if panicked st then st
         else case moderator of
                Some m \<Rightarrow>
                  snd (callModerator CallAgent discussion m ''round_summary''
                         (''Round '' @ Sprintf_d round @ '' completed'') st)
              | None \<Rightarrow> st)"

text \<open>\<^verbatim>\<open>for round := 1; round <= maxRounds; round++\<close>, from \<open>round\<close> on.\<close>

function roundLoop ::
  "adapter \<Rightarrow> Discussion \<Rightarrow> Agent list \<Rightarrow> Agent option \<Rightarrow> int \<Rightarrow> int \<Rightarrow> Exec \<Rightarrow> Exec" where
  "roundLoop CallAgent discussion agents moderator maxRounds round st =
     (if round \<le> maxRounds
      then let st = runRound CallAgent discussion agents moderator round st
           in if panicked st then st
              else if \<not> roundActive st then st
              else roundLoop CallAgent discussion agents moderator maxRounds (round + 1)
                     (st\<lparr>roundCount := roundCount st + 1\<rparr>)
      else st)"
  by pat_completeness auto
termination
  by (relation "measure (\<lambda>(CallAgent, discussion, agents, moderator, maxRounds, round, st).
                           nat (maxRounds + 1 - round))") auto

declare roundLoop.simps [simp del]

definition updateDiscussion :: "Discussion \<Rightarrow> Exec \<Rightarrow> Exec" where
  "updateDiscussion discussion st =
     (case UpdateDiscussion (database st) discussion of
        Inl err \<Rightarrow> st
      | Inr db' \<Rightarrow> st\<lparr>database := db'\<rparr>)"

definition initExec :: "DB \<Rightarrow> Exec" where
  "initExec db =
     \<lparr>database = db, events = [], ncalls = 0, turns = [], debateContext = [],
      roundActive = False, roundCount = 1, panicked = False\<rparr>"

text \<open>
  \<open>executeDebate\<close> returns the discussion record as the run leaves it, and the final state.
  The deferred function runs last: after a panic it marks the discussion as failed; in
  both cases it writes the record once more. The return value of \<open>UpdateDiscussion\<close> is
  dropped, as in the source.
\<close>

definition executeDebate ::
  "adapter \<Rightarrow> DB \<Rightarrow> Discussion \<Rightarrow> Agent list \<Rightarrow> Agent option \<Rightarrow> Discussion \<times> Exec" where
  "executeDebate CallAgent db discussion agents moderator =
     (let st = initExec db;
          st = (case moderator of
                  Some m \<Rightarrow> snd (callModerator CallAgent discussion m ''opening'' [] st)
                | None \<Rightarrow> st);
          maxRounds = (if MaxRounds discussion \<le> 0 then 3 else MaxRounds discussion);
          st = roundLoop CallAgent discussion agents moderator maxRounds 1 st
      in if panicked st
         then let discussion = discussion\<lparr>Discussion.Status := ''failed''\<rparr>
              in (discussion, updateDiscussion discussion st)
         else
           let st = (case moderator of
                       Some m \<Rightarrow> snd (callModerator CallAgent discussion m ''closing'' [] st)
                     | None \<Rightarrow> st);
               summary = generateSummary (Topic discussion) (debateContext st);
               discussion = discussion\<lparr>FinalSummary := summary,
                                       Discussion.Status := ''completed''\<rparr>;
               st = updateDiscussion discussion st;
               st = st\<lparr>events := events st @ [DiscussionEvent discussion]\<rparr>;
               discussion = (if Discussion.Status discussion = ''running''
                             then discussion\<lparr>Discussion.Status := ''completed''\<rparr>
                             else discussion)
           in (discussion, updateDiscussion discussion st))"

subsection \<open>Starting, stopping and retrying\<close>

text \<open>
  \<open>getAgents\<close> looks every identifier up, in one goroutine each; a failed lookup sends its
  error to the channel, a successful one appends the agent. \<open>lookupAgents\<close> gives the errors
  sent and the agents found. The source collects both in the order in which the goroutines
  finish; here the order is that of the identifiers. Whether an error is returned does
  not depend on that order.
\<close>

fun lookupAgents :: "DB \<Rightarrow> int list \<Rightarrow> error list \<times> Agent list" where
  "lookupAgents db [] = ([], [])"
| "lookupAgents db (agentID # agentIDs) =
     (case lookupAgents db agentIDs of
        (errs, agents) \<Rightarrow>
          (case GetAgent db agentID of
             Inl err \<Rightarrow> (err # errs, agents)
           | Inr agent \<Rightarrow> (errs, agent # agents)))"

definition getAgents :: "DB \<Rightarrow> int list \<Rightarrow> error + Agent list" where
  "getAgents db agentIDs =
     (case lookupAgents db agentIDs of
        (errs, agents) \<Rightarrow>
          (case errs of
             err # _ \<Rightarrow> Inl err
           | [] \<Rightarrow>
               if length agents \<noteq> length agentIDs
               then Inl (''only found '' @ Sprintf_d (int (length agents)) @ '' out of ''
                          @ Sprintf_d (int (length agentIDs)) @ '' agents'')
               else Inr agents))"

text \<open>
  \<open>RunDebate\<close> up to the start of the goroutine: the result handed to the caller, the
  database it leaves, and the arguments with which \<open>executeDebate\<close> is started.
\<close>

definition RunDebate ::
  "DB \<Rightarrow> string \<Rightarrow> int list \<Rightarrow> int option \<Rightarrow> int \<Rightarrow> string \<Rightarrow> int
    \<Rightarrow> (error + Discussion \<times> Agent list \<times> Agent option) \<times> DB" where
  "RunDebate db topic agentIDs moderatorID maxRounds language maxCharLimit =
     (case getAgents db agentIDs of
        Inl err \<Rightarrow> (Inl (''failed to verify agents: '' @ err), db)
      | Inr agents \<Rightarrow>
          (case (case moderatorID of
                   None \<Rightarrow> Inr None
                 | Some m \<Rightarrow> (case GetAgent db m of
                                Inl err \<Rightarrow> Inl err
                              | Inr a \<Rightarrow> Inr (Some a))) of
             Inl err \<Rightarrow> (Inl (''failed to verify moderator: '' @ err), db)
           | Inr moderator \<Rightarrow>
               let discussion =
                     \<lparr>Discussion.ID = 0, Topic = topic, FinalSummary = [],
                      Status = ''running'', AgentIDs = agentIDs, ModeratorID = moderatorID,
                      MaxRounds = maxRounds, Language = language,
                      MaxCharLimit = maxCharLimit\<rparr>
               in (case InsertDiscussion db discussion of
                     Inl err \<Rightarrow> (Inl (''failed to create discussion: '' @ err), db)
                   | Inr (discussion, db') \<Rightarrow>
                       (Inr (discussion, agents, moderator), db'))))"

text \<open>
  \<open>StopDiscussion\<close> and \<open>RetryFailedAgent\<close> return their error (if any) and the database.
  A retry makes one call of the adapter, which is given the index 0.
\<close>

definition StopDiscussion :: "DB \<Rightarrow> int \<Rightarrow> error option \<times> DB" where
  "StopDiscussion db discussionID =
     (case GetDiscussion db discussionID of
        Inl err \<Rightarrow> (Some (''failed to get discussion: '' @ err), db)
      | Inr discussion \<Rightarrow>
          if Discussion.Status discussion \<noteq> ''running''
          then (Some ''discussion is not running'', db)
          else (case UpdateDiscussion db (discussion\<lparr>Discussion.Status := ''completed''\<rparr>) of
                  Inl err \<Rightarrow> (Some err, db)
                | Inr db' \<Rightarrow> (None, db')))"

text \<open>
  The context of a retry: the contents of the successful entries, two line feeds apart.
  Reading the log entries does not fail in this model of the database, so the error return
  after \<open>GetDiscussionLogs\<close> has no counterpart in \<open>RetryFailedAgent\<close>.
\<close>

fun retryContext :: "DiscussionLog list \<Rightarrow> string \<Rightarrow> string" where
  "retryContext [] contextBuilder = contextBuilder"
| "retryContext (log # logs) contextBuilder =
     retryContext logs
       (if DiscussionLog.Status log = ''success''
        then (if contextBuilder \<noteq> [] then contextBuilder @ ''\<newline>\<newline>'' else contextBuilder)
               @ DiscussionLog.Content log
        else contextBuilder)"

definition RetryFailedAgent :: "adapter \<Rightarrow> DB \<Rightarrow> int \<Rightarrow> int \<Rightarrow> error option \<times> DB" where
  "RetryFailedAgent CallAgent db discussionID agentID =
     (case GetDiscussion db discussionID of
        Inl err \<Rightarrow> (Some (''failed to get discussion: '' @ err), db)
      | Inr discussion \<Rightarrow>
          if Discussion.Status discussion \<noteq> ''running''
          then (Some ''discussion is not running'', db)
          else (case GetAgent db agentID of
                  Inl err \<Rightarrow> (Some (''failed to get agent: '' @ err), db)
                | Inr agent \<Rightarrow>
                    let logs = GetDiscussionLogs db discussionID;
                        contextStr = retryContext logs [];
                        prompt = buildPrompt discussion;
                        (response, err) = CallAgent 0 agent prompt contextStr;
                        logEntry = \<lparr>DiscussionLog.ID = 0, DiscussionID = discussionID,
                                    AgentID = agentID, Content = [], Status = ''success'',
                                    ResponseTime = AgentResponse.ResponseTime response,
                                    IsModerator = False\<rparr>;
                        logEntry =
                          (case err of
                             Some e \<Rightarrow>
                               logEntry\<lparr>DiscussionLog.Status := ''error'',
                                         DiscussionLog.Content := ''Retry failed: '' @ e\<rparr>
                           | None \<Rightarrow>
                               if \<not> Success response
                               then logEntry\<lparr>DiscussionLog.Status := ''error'',
                                              DiscussionLog.Content :=
                                                ''Retry failed: '' @ ErrorMessage response\<rparr>
                               else logEntry\<lparr>DiscussionLog.Content :=
                                                AgentResponse.Content response\<rparr>)
                    in (case InsertDiscussionLog db logEntry of
                          Inl e \<Rightarrow> (Some e, db)
                        | Inr (saved, db') \<Rightarrow> (None, db'))))"

subsection \<open>The transcript and the entries of a run\<close>

text \<open>
  For stating what the scheduler does. A successful turn contributes one block to the
  debate context: its header line and the content of its entry. \<open>transcript\<close> is the
  context that a sequence of turns amounts to: the blocks, two line feeds apart.
  \<open>entriesSince\<close> gives the log entries that a run has added to the table.
\<close>

definition block :: "Turn \<Rightarrow> string option" where
  "block t =
     (case entry t of
        None \<Rightarrow> None
      | Some e \<Rightarrow>
          if DiscussionLog.Status e = ''success''
          then Some (contextHeader (turnRound t) (speaker t) @ ''\<newline>''
                       @ DiscussionLog.Content e)
          else None)"

fun joinBlocks :: "string list \<Rightarrow> string" where
  "joinBlocks [] = []"
| "joinBlocks [b] = b"
| "joinBlocks (b # b' # bs) = b @ ''\<newline>\<newline>'' @ joinBlocks (b' # bs)"

definition transcript :: "Turn list \<Rightarrow> string" where
  "transcript ts = joinBlocks (List.map_filter block ts)"

definition entriesSince :: "DB \<Rightarrow> Exec \<Rightarrow> DiscussionLog list" where
  "entriesSince db st =
     drop (length (t_discussion_logs db)) (t_discussion_logs (database st))"

text \<open>
  What holds of a run of \<open>executeDebate\<close> on the database \<open>db\<close> at every point: the log
  table has only grown; every entry added has the status \<open>success\<close> or \<open>error\<close>; a
  participant's successful entry is within the character limit; the participants'
  entries are those of the turns taken; the debate context is the transcript of the turns
  taken, and each turn was handed the transcript of the turns before it; and the run has
  panicked exactly if a turn was aborted.
\<close>

definition runInv :: "Discussion \<Rightarrow> DB \<Rightarrow> Exec \<Rightarrow> bool" where
  "runInv discussion db st \<longleftrightarrow>
     (\<exists>new. t_discussion_logs (database st) = t_discussion_logs db @ new
        \<and> (\<forall>l \<in> set new.
              (DiscussionLog.Status l = ''success'' \<or> DiscussionLog.Status l = ''error'')
              \<and> (\<not> IsModerator l \<and> DiscussionLog.Status l = ''success''
                   \<longrightarrow> int (length (DiscussionLog.Content l)) \<le> MaxCharLimit discussion))
        \<and> filter (\<lambda>l. \<not> IsModerator l) new = List.map_filter entry (turns st))
     \<and> debateContext st = transcript (turns st)
     \<and> (\<forall>k < length (turns st).
           priorContext (turns st ! k) = transcript (take k (turns st)))
     \<and> (panicked st \<longleftrightarrow> (\<exists>t \<in> set (turns st). entry t = None))"

section \<open>A small debate, for the examples\<close>

text \<open>
  Two participants, a moderator and one running discussion in the database, and two
  adapters: one that answers every call with the agent's name, and one that fails every
  call with an exceeded deadline. \<open>demoRun\<close> is a debate of the two participants.
\<close>

definition ann :: Agent where
  "ann = \<lparr>Agent.ID = 1, Name = ''Ann'', ProviderType = [], ProviderURL = ''http://a'',
          APIToken = [], ModelName = ''m'', TimeoutSeconds = 30\<rparr>"

definition bob :: Agent where
  "bob = \<lparr>Agent.ID = 2, Name = ''Bob'', ProviderType = [], ProviderURL = ''http://b'',
          APIToken = [], ModelName = ''m'', TimeoutSeconds = 30\<rparr>"

definition moe :: Agent where
  "moe = \<lparr>Agent.ID = 3, Name = ''Moe'', ProviderType = [], ProviderURL = ''http://c'',
          APIToken = [], ModelName = ''m'', TimeoutSeconds = 30\<rparr>"

definition agentRow :: "Agent \<Rightarrow> AgentRow" where
  "agentRow a = \<lparr>col_name = Name a, col_provider_url = ProviderURL a,
                 col_api_token = APIToken a, col_model_name = ModelName a,
                 col_timeout_seconds = TimeoutSeconds a\<rparr>"

definition debate :: "int \<Rightarrow> int \<Rightarrow> Discussion" where
  "debate maxRounds maxCharLimit =
     \<lparr>Discussion.ID = 1, Topic = ''T'', FinalSummary = [], Status = ''running'',
      AgentIDs = [1, 2], ModeratorID = None, MaxRounds = maxRounds, Language = ''en'',
      MaxCharLimit = maxCharLimit\<rparr>"

definition demoDB :: DB where
  "demoDB =
     \<lparr>t_agents = [1 \<mapsto> agentRow ann, 2 \<mapsto> agentRow bob, 3 \<mapsto> agentRow moe],
      t_discussions = [1 \<mapsto> discussionRow (debate 2 100)],
      t_discussion_logs = [], seq_discussions = 1, seq_discussion_logs = 0\<rparr>"

definition answering :: adapter where
  "answering k agent prompt contextStr =
     (\<lparr>AgentResponse.Content = Name agent, Success = True, ErrorMessage = [],
       ResponseTime = 5\<rparr>, None)"

definition timingOut :: adapter where
  "timingOut k agent prompt contextStr =
     (\<lparr>AgentResponse.Content = [], Success = False,
       ErrorMessage = ''context deadline exceeded'', ResponseTime = 40000\<rparr>,
      Some ''context deadline exceeded'')"

definition demoRun :: "adapter \<Rightarrow> int \<Rightarrow> int \<Rightarrow> Agent option \<Rightarrow> Discussion \<times> Exec" where
  "demoRun CallAgent maxRounds maxCharLimit moderator =
     executeDebate CallAgent demoDB (debate maxRounds maxCharLimit) [ann, bob] moderator"

section \<open>Properties of the provider adapter\<close>

subsection \<open>Provider kind\<close>

text \<open>
  Claim C1, as amended. The builder that \<open>CallAgent\<close> runs does not depend on the agent's
  configured provider type: it is decided by the substrings of the provider URL alone,
  in the order of \<open>detectProviderType\<close>, whatever the provider type field holds.
\<close>

theorem CallAgent_backend_by_url:
  "CallAgent_backend (agent\<lparr>ProviderType := kind\<rparr>) = CallAgent_backend agent
   \<and> CallAgent_backend agent =
       (if Contains (ProviderURL agent) ''ollama''
           \<or> Contains (ProviderURL agent) ''localhost:11434''
        then CallOllama
        else if Contains (ProviderURL agent) ''openai.com'' then CallOpenAI
        else if Contains (ProviderURL agent) ''anthropic.com'' then CallAnthropic
        else if Contains (ProviderURL agent) ''googleapis.com'' then CallGoogle
        else CallCustom)"
  by (simp add: CallAgent_backend_def backendFor_def detectProviderType_def)

text \<open>
  Claim C1 as stated fails: an agent configured as \<open>openai\<close> whose URL names the local
  Ollama port is served by the Ollama builder, not by the one of its configured kind.
\<close>

theorem CallAgent_ignores_configured_kind:
  "CallAgent_backend
     \<lparr>Agent.ID = 1, Name = ''A'', ProviderType = ''openai'',
      ProviderURL = ''http://localhost:11434/v1'', APIToken = [], ModelName = ''m'',
      TimeoutSeconds = 30\<rparr> = CallOllama
   \<and> backendFor ''openai'' = CallOpenAI"
  by (simp add: CallAgent_backend_def backendFor_def detectProviderType_def)

subsection \<open>Endpoints\<close>

lemma tryEndpoints_accepted:
  "find (\<lambda>e. chatContent http agent jsonData e \<noteq> None) endpoints = Some endpoint \<Longrightarrow>
   chatContent http agent jsonData endpoint = Some content \<Longrightarrow>
   tryEndpoints http agent jsonData endpoints lastErr tried =
     ((\<lparr>AgentResponse.Content = content, Success = True, ErrorMessage = [],
        ResponseTime = 0\<rparr>, None),
      tried @ takeWhile (\<lambda>e. chatContent http agent jsonData e = None) endpoints @ [endpoint])"
proof (induction endpoints arbitrary: lastErr tried)
  case Nil
  then show ?case by simp
next
  case (Cons e es)
  show ?case
  proof (cases "chatContent http agent jsonData e")
    case None
    with Cons.prems have f: "find (\<lambda>e. chatContent http agent jsonData e \<noteq> None) es = Some endpoint"
      by simp
    from None show ?thesis
      by (auto simp: chatContent_def Cons.IH [OF f Cons.prems(2)]
               split: http_reply.splits sum.splits list.splits if_splits)
  next
    case (Some c)
    with Cons.prems have "e = endpoint" "c = content" by auto
    with Some show ?thesis
      by (auto simp: chatContent_def split: http_reply.splits sum.splits list.splits if_splits)
  qed
qed

lemma tryEndpoints_rejected:
  "find (\<lambda>e. chatContent http agent jsonData e \<noteq> None) endpoints = None \<Longrightarrow>
   snd (tryEndpoints http agent jsonData endpoints lastErr tried) = tried @ endpoints
   \<and> \<not> Success (fst (fst (tryEndpoints http agent jsonData endpoints lastErr tried)))"
proof (induction endpoints arbitrary: lastErr tried)
  case Nil
  then show ?case by simp
next
  case (Cons e es)
  then have n: "chatContent http agent jsonData e = None"
    and f: "find (\<lambda>e. chatContent http agent jsonData e \<noteq> None) es = None"
    by (auto split: if_splits)
  from n show ?case
    by (auto simp: chatContent_def Cons.IH [OF f]
             split: http_reply.splits sum.splits list.splits if_splits)
qed

text \<open>
  Claim C4, as amended. For an agent of the custom kind whose base URL (trimmed, without a
  final slash) is not a complete endpoint and does not end in \<open>/v1\<close>, the chat request
  goes to base + \<open>/v1/chat/completions\<close> first, then to base + \<open>/chat/completions\<close>,
  then to the bare base URL. The call returns the first choice of the first endpoint that
  answers with status 200 and a body that decodes to at least one choice, and requests
  no endpoint after it. Only when all three are rejected does the adapter go on to the
  completion-style request of \<open>callGenericCompletion\<close>.
\<close>

theorem callCustom_endpoint_order:
  assumes "baseURL = TrimSuffix (TrimSpace (ProviderURL agent)) ''/''"
    and "\<not> Contains baseURL ''/chat/completions''"
    and "\<not> Contains baseURL ''/generate''"
    and "\<not> HasSuffix baseURL ''/v1''"
    and "endpoints = [baseURL @ ''/v1/chat/completions'', baseURL @ ''/chat/completions'', baseURL]"
    and "jsonData = ChatBody \<lparr>Model = ModelName agent,
                               Messages = openAIMessages prompt contextStr, Stream = False\<rparr>"
  shows "getChatEndpoints (ProviderURL agent) = endpoints
    \<and> (\<forall>endpoint content.
          find (\<lambda>e. chatContent http agent jsonData e \<noteq> None) endpoints = Some endpoint
          \<and> chatContent http agent jsonData endpoint = Some content
          \<longrightarrow> callCustom http agent prompt contextStr =
                ((\<lparr>AgentResponse.Content = content, Success = True, ErrorMessage = [],
                   ResponseTime = 0\<rparr>, None),
                 takeWhile (\<lambda>e. chatContent http agent jsonData e = None) endpoints
                   @ [endpoint]))
    \<and> (find (\<lambda>e. chatContent http agent jsonData e \<noteq> None) endpoints = None
          \<longrightarrow> snd (callCustom http agent prompt contextStr) =
                endpoints @ snd (callGenericCompletion http agent prompt contextStr))"
proof -
  have g: "getChatEndpoints (ProviderURL agent) = endpoints"
    using assms(1-5) by (simp add: getChatEndpoints_def Let_def)
  have o: "callOpenAI http agent prompt contextStr
             = tryEndpoints http agent jsonData endpoints None []"
    using g assms(6) by (simp add: callOpenAI_def Let_def)
  show ?thesis
  proof (intro conjI allI impI)
    show "getChatEndpoints (ProviderURL agent) = endpoints" by (rule g)
  next
    fix endpoint content
    assume "find (\<lambda>e. chatContent http agent jsonData e \<noteq> None) endpoints = Some endpoint
          \<and> chatContent http agent jsonData endpoint = Some content"
    then show "callCustom http agent prompt contextStr =
                ((\<lparr>AgentResponse.Content = content, Success = True, ErrorMessage = [],
                   ResponseTime = 0\<rparr>, None),
                 takeWhile (\<lambda>e. chatContent http agent jsonData e = None) endpoints
                   @ [endpoint])"
      by (simp add: callCustom_def o tryEndpoints_accepted)
  next
    assume n: "find (\<lambda>e. chatContent http agent jsonData e \<noteq> None) endpoints = None"
    show "snd (callCustom http agent prompt contextStr) =
                endpoints @ snd (callGenericCompletion http agent prompt contextStr)"
      using tryEndpoints_rejected [OF n, of None "[]"]
      by (auto simp: callCustom_def o split: prod.splits)
  qed
qed

text \<open>
  An instance: a server that knows only \<open>/chat/completions\<close> is reached at the second
  attempt, after \<open>/v1/chat/completions\<close> was refused, and the bare URL is not requested.
\<close>

theorem callCustom_endpoint_order_witness:
  "callCustom
     \<lparr>Do = (\<lambda>r. if URL r = ''http://h/chat/completions'' then Reply 200 ''A''
                else Failed ''connection refused''),
      UnmarshalOpenAI = (\<lambda>b. Inr [b]),
      UnmarshalMap = (\<lambda>b. Inl ''unexpected end of JSON input'')\<rparr>
     \<lparr>Agent.ID = 1, Name = ''A'', ProviderType = ''custom'', ProviderURL = ''http://h'',
      APIToken = [], ModelName = ''m'', TimeoutSeconds = 30\<rparr>
     ''p'' []
   = ((\<lparr>AgentResponse.Content = ''A'', Success = True, ErrorMessage = [], ResponseTime = 0\<rparr>,
       None), [''http://h/v1/chat/completions'', ''http://h/chat/completions''])"
proof -
  let ?http = "\<lparr>Do = (\<lambda>r. if URL r = ''http://h/chat/completions'' then Reply 200 ''A''
                          else Failed ''connection refused''),
                UnmarshalOpenAI = (\<lambda>b. Inr [b]),
                UnmarshalMap = (\<lambda>b. Inl ''unexpected end of JSON input'')\<rparr>"
  let ?agent = "\<lparr>Agent.ID = 1, Name = ''A'', ProviderType = ''custom'',
                 ProviderURL = ''http://h'', APIToken = [], ModelName = ''m'',
                 TimeoutSeconds = 30\<rparr>"
  let ?json = "ChatBody \<lparr>Model = ModelName ?agent,
                          Messages = openAIMessages ''p'' [], Stream = False\<rparr>"
  let ?es = "[''http://h'' @ ''/v1/chat/completions'', ''http://h'' @ ''/chat/completions'',
              ''http://h'']"
  have 1: "''http://h'' = TrimSuffix (TrimSpace (ProviderURL ?agent)) ''/''"
    by (simp add: TrimSuffix_def TrimSpace_def HasSuffix_def TrimLeftSpace.simps
          TrimRightSpace.simps spaceRunes_def)
  have 2: "\<not> Contains ''http://h'' ''/chat/completions''" by simp
  have 3: "\<not> Contains ''http://h'' ''/generate''" by simp
  have 4: "\<not> HasSuffix ''http://h'' ''/v1''" by (simp add: HasSuffix_def)
  have f: "find (\<lambda>e. chatContent ?http ?agent ?json e \<noteq> None) ?es
             = Some ''http://h/chat/completions''
           \<and> chatContent ?http ?agent ?json ''http://h/chat/completions'' = Some ''A''"
    by (simp add: chatContent_def postRequest_def)
  from callCustom_endpoint_order
         [where http = ?http and prompt = "''p''" and contextStr = "[]" and agent = ?agent,
          OF 1 2 3 4 refl refl] f
  have "callCustom ?http ?agent ''p'' [] =
          ((\<lparr>AgentResponse.Content = ''A'', Success = True, ErrorMessage = [],
             ResponseTime = 0\<rparr>, None),
           takeWhile (\<lambda>e. chatContent ?http ?agent ?json e = None) ?es
             @ [''http://h/chat/completions''])"
    by blast
  then show ?thesis by (simp add: chatContent_def postRequest_def)
qed

text \<open>
  Claim C4 as stated fails: where both \<open>/chat/completions\<close> and \<open>/v1/chat/completions\<close>
  answer, the adapter takes the answer of \<open>/v1/chat/completions\<close> and never requests
  \<open>/chat/completions\<close>.
\<close>

theorem callCustom_requests_v1_first:
  "callCustom
     \<lparr>Do = (\<lambda>r. if URL r = ''http://h/v1/chat/completions'' then Reply 200 ''B''
                else if URL r = ''http://h/chat/completions'' then Reply 200 ''A''
                else Failed ''connection refused''),
      UnmarshalOpenAI = (\<lambda>b. Inr [b]),
      UnmarshalMap = (\<lambda>b. Inl ''unexpected end of JSON input'')\<rparr>
     \<lparr>Agent.ID = 1, Name = ''A'', ProviderType = ''custom'', ProviderURL = ''http://h'',
      APIToken = [], ModelName = ''m'', TimeoutSeconds = 30\<rparr>
     ''p'' []
   = ((\<lparr>AgentResponse.Content = ''B'', Success = True, ErrorMessage = [], ResponseTime = 0\<rparr>,
       None), [''http://h/v1/chat/completions''])"
  by (simp add: callCustom_def callOpenAI_def getChatEndpoints_def TrimSuffix_def TrimSpace_def
        HasSuffix_def TrimLeftSpace.simps TrimRightSpace.simps spaceRunes_def postRequest_def)

section \<open>Properties of the final summary\<close>

lemma previewLoop_eq:
  "i \<le> 5 \<Longrightarrow> previewLoop lines i summary =
     summary @ concat (map (\<lambda>l. ''- '' @ l @ ''\<newline>'')
                 (filter (\<lambda>l. l \<noteq> []) (map TrimSpace (drop i (take 5 lines)))))"
proof (induction lines i summary rule: previewLoop.induct)
  case (1 lines i summary)
  show ?case
  proof (cases "i < 5 \<and> i < length lines")
    case True
    then have d: "drop i (take 5 lines) = lines ! i # drop (i + 1) (take 5 lines)"
      by (metis Cons_nth_drop_Suc Suc_eq_plus1 length_take min_less_iff_conj nth_take)
    from True have "i + 1 \<le> 5" by simp
    with 1 True show ?thesis
      by (subst previewLoop.simps) (simp add: d)
  next
    case False
    then have "drop i (take 5 lines) = []" using 1 by auto
    with False show ?thesis by (subst previewLoop.simps) auto
  qed
qed

text \<open>
  What the generator computes, for every topic and transcript. For the empty transcript it
  is the fixed sentence. For any other transcript it is the header naming the topic and
  three fixed sentences, followed, if the transcript has more than five lines, by the line
  \<open>Key points discussed:\<close>, one bullet for each of the first five lines that is not blank
  (trimmed), and the notice that there is more.
\<close>

lemma generateSummary_shape:
  "generateSummary topic context =
     (if context = [] then ''No responses were generated during this debate.''
      else ''Debate Summary for: '' @ topic @ ''\<newline>\<newline>''
        @ ''The debate involved multiple AI agents discussing this topic. ''
        @ ''Each agent provided their perspective and responded to others' arguments. ''
        @ ''For detailed discussion, please review the individual agent responses.\<newline>\<newline>''
        @ (if length (Split_newline context) > 5
           then ''Key points discussed:\<newline>''
             @ concat (map (\<lambda>l. ''- '' @ l @ ''\<newline>'')
                 (filter (\<lambda>l. l \<noteq> []) (map TrimSpace (take 5 (Split_newline context)))))
             @ ''... (see full discussion for more details)''
           else []))"
  by (simp add: generateSummary_def Let_def previewLoop_eq)

text \<open>
  Claim C5. The final summary is a function of the topic and the transcript: for the empty
  transcript the fixed sentence; for any other transcript the header naming the topic, the
  fixed explanatory sentences, and up to five leading lines that are not blank as bullets,
  with the notice that there is more when the transcript has more than five lines.

  The code does not do this for a transcript of at most five lines. The loop that writes
  the bullets, under the comment \<open>Add first few lines of actual discussion as preview\<close>
  and bounded by \<open>i < 5 && i < len(lines)\<close>, stands inside the test \<open>len(lines) > 5\<close>
  that only the notice needs; there the second bound of the loop and the inner test of
  the same condition can never decide anything. The debate of two participants who both
  answer in its one round has a transcript of five lines, four of them not blank; its
  summary ends after the fixed sentences and has no bullet.
\<close>

theorem generateSummary_short_transcript:
  "debateContext (snd (demoRun answering 1 100 None))
     = ''Round 1 - Agent Ann (1):\<newline>Ann\<newline>\<newline>Round 1 - Agent Bob (2):\<newline>Bob''
   \<and> generateSummary ''T'' ''Round 1 - Agent Ann (1):\<newline>Ann\<newline>\<newline>Round 1 - Agent Bob (2):\<newline>Bob''
     = ''Debate Summary for: T\<newline>\<newline>The debate involved multiple AI agents discussing this topic. Each agent provided their perspective and responded to others' arguments. For detailed discussion, please review the individual agent responses.\<newline>\<newline>''
   \<and> FinalSummary (fst (demoRun answering 1 100 None))
     = generateSummary ''T'' ''Round 1 - Agent Ann (1):\<newline>Ann\<newline>\<newline>Round 1 - Agent Bob (2):\<newline>Bob''
   \<and> \<not> Contains (FinalSummary (fst (demoRun answering 1 100 None))) ''- ''"
  by code_simp

section \<open>Properties of the scheduler\<close>

subsection \<open>What one call of the moderator and one participant turn do\<close>

lemma saveLog_checked:
  "checkLogStatus (DiscussionLog.Status l) \<Longrightarrow>
   saveLog l st =
     (l\<lparr>DiscussionLog.ID := seq_discussion_logs (database st) + 1\<rparr>,
      st\<lparr>database := (database st)
            \<lparr>t_discussion_logs := t_discussion_logs (database st)
               @ [l\<lparr>DiscussionLog.ID := seq_discussion_logs (database st) + 1\<rparr>],
             seq_discussion_logs := seq_discussion_logs (database st) + 1\<rparr>,
          events := events st
            @ [LogEvent (l\<lparr>DiscussionLog.ID := seq_discussion_logs (database st) + 1\<rparr>)]\<rparr>)"
  by (simp add: saveLog_def InsertDiscussionLog_def Let_def)

lemma checkLogStatus_simps [simp]:
  "checkLogStatus ''success''" "checkLogStatus ''error''"
  by (simp_all add: checkLogStatus_def)

lemma callModerator_effect:
  "\<exists>e. snd (callModerator CallAgent discussion moderator moderatorType contextStr st) =
         st\<lparr>ncalls := ncalls st + 1,
            database := (database st)
              \<lparr>t_discussion_logs := t_discussion_logs (database st) @ [e],
               seq_discussion_logs := seq_discussion_logs (database st) + 1\<rparr>,
            events := events st @ [LogEvent e]\<rparr>
       \<and> IsModerator e
       \<and> (DiscussionLog.Status e = ''success'' \<or> DiscussionLog.Status e = ''error'')"
  by (cases "CallAgent (ncalls st) moderator
               (buildModeratorPrompt discussion moderatorType contextStr) []")
     (auto simp: callModerator_def Let_def saveLog_checked split: option.splits)

text \<open>
  A participant turn that does not panic, written out: the entry \<open>e\<close> that it stores and
  the state \<open>st'\<close> before the moderator's interim remark.
\<close>

lemma agentTurn_unfold:
  assumes call: "CallAgent (ncalls st) agent
                   (if round > 1 then buildRoundPrompt discussion round (int i + 1) (int n)
                    else buildPrompt discussion) (debateContext st) = (response, err)"
    and nopanic: "\<not> (err = None \<and> Success response
                      \<and> int (length (AgentResponse.Content response)) > MaxCharLimit discussion
                      \<and> MaxCharLimit discussion < 0)"
    and e: "e = \<lparr>DiscussionLog.ID = seq_discussion_logs (database st) + 1,
                 DiscussionID = Discussion.ID discussion, AgentID = Agent.ID agent,
                 Content = (case err of
                              Some msg \<Rightarrow> ''Error: '' @ msg
                            | None \<Rightarrow>
                                if \<not> Success response then ''Error: '' @ ErrorMessage response
                                else if int (length (AgentResponse.Content response))
                                          > MaxCharLimit discussion
                                then take (nat (MaxCharLimit discussion))
                                       (AgentResponse.Content response)
                                else AgentResponse.Content response),
                 Status = (if err = None \<and> Success response then ''success'' else ''error''),
                 ResponseTime = AgentResponse.ResponseTime response, IsModerator = False\<rparr>"
    and st': "st' = st\<lparr>ncalls := ncalls st + 1,
                  roundActive := (roundActive st \<or> DiscussionLog.Status e = ''success''),
                  debateContext :=
                    (if DiscussionLog.Status e = ''success''
                     then (if debateContext st \<noteq> [] then debateContext st @ ''\<newline>\<newline>''
                           else debateContext st)
                          @ contextHeader round agent @ ''\<newline>'' @ DiscussionLog.Content e
                     else debateContext st),
                  database := (database st)
                    \<lparr>t_discussion_logs := t_discussion_logs (database st) @ [e],
                     seq_discussion_logs := seq_discussion_logs (database st) + 1\<rparr>,
                  events := events st @ [LogEvent e],
                  turns := turns st @ [\<lparr>turnRound = round, speaker = agent,
                                        priorContext = debateContext st, entry = Some e\<rparr>]\<rparr>"
  shows "agentTurn CallAgent discussion moderator round n i agent st =
           (case moderator of
              Some m \<Rightarrow>
                if int i < int n - 1
                then snd (callModerator CallAgent discussion m ''interim''
                            (AgentResponse.Content response) st')
                else st'
            | None \<Rightarrow> st')"
proof (cases err)
  case (Some msg)
  then show ?thesis
    unfolding agentTurn_def Let_def call st' e
    by (cases moderator) (simp_all add: saveLog_checked)
next
  case None
  show ?thesis
  proof (cases "Success response")
    case False
    with None show ?thesis
      unfolding agentTurn_def Let_def call st' e
      by (cases moderator) (simp_all add: saveLog_checked)
  next
    case True
    with None nopanic have "\<not> MaxCharLimit discussion < 0"
      by (cases "MaxCharLimit discussion < 0") auto
    with None True show ?thesis
      unfolding agentTurn_def Let_def call st' e
      by (cases moderator) (simp_all add: saveLog_checked)
  qed
qed

lemma agentTurn_panic:
  assumes call: "CallAgent (ncalls st) agent
                   (if round > 1 then buildRoundPrompt discussion round (int i + 1) (int n)
                    else buildPrompt discussion) (debateContext st) = (response, None)"
    and "Success response" and "MaxCharLimit discussion < 0"
  shows "agentTurn CallAgent discussion moderator round n i agent st =
           st\<lparr>ncalls := ncalls st + 1,
              turns := turns st @ [\<lparr>turnRound = round, speaker = agent,
                                    priorContext = debateContext st, entry = None\<rparr>],
              panicked := True\<rparr>"
proof -
  from assms(3) have "MaxCharLimit discussion < int (length (AgentResponse.Content response))"
    by linarith
  with assms show ?thesis
    unfolding agentTurn_def Let_def call by simp
qed

lemma agentTurn_cases:
  obtains
    (panic) "MaxCharLimit discussion < 0"
      "agentTurn CallAgent discussion moderator round n i agent st =
         st\<lparr>ncalls := ncalls st + 1,
            turns := turns st @ [\<lparr>turnRound = round, speaker = agent,
                                  priorContext = debateContext st, entry = None\<rparr>],
            panicked := True\<rparr>"
  | (turn) e st' where
      "st' = st\<lparr>ncalls := ncalls st + 1,
                roundActive := (roundActive st \<or> DiscussionLog.Status e = ''success''),
                debateContext :=
                  (if DiscussionLog.Status e = ''success''
                   then (if debateContext st \<noteq> [] then debateContext st @ ''\<newline>\<newline>''
                         else debateContext st)
                        @ contextHeader round agent @ ''\<newline>'' @ DiscussionLog.Content e
                   else debateContext st),
                database := (database st)
                  \<lparr>t_discussion_logs := t_discussion_logs (database st) @ [e],
                   seq_discussion_logs := seq_discussion_logs (database st) + 1\<rparr>,
                events := events st @ [LogEvent e],
                turns := turns st @ [\<lparr>turnRound = round, speaker = agent,
                                      priorContext = debateContext st, entry = Some e\<rparr>]\<rparr>"
      "\<not> IsModerator e"
      "DiscussionLog.Status e = ''success'' \<or> DiscussionLog.Status e = ''error''"
      "DiscussionLog.Status e = ''success'' \<longrightarrow>
         int (length (DiscussionLog.Content e)) \<le> MaxCharLimit discussion"
      "agentTurn CallAgent discussion moderator round n i agent st = st'
       \<or> (\<exists>m c. moderator = Some m \<and>
             agentTurn CallAgent discussion moderator round n i agent st =
               snd (callModerator CallAgent discussion m ''interim'' c st'))"
proof (cases "CallAgent (ncalls st) agent
                (if round > 1 then buildRoundPrompt discussion round (int i + 1) (int n)
                 else buildPrompt discussion) (debateContext st)")
  case (Pair response err)
  show ?thesis
  proof (cases "err = None \<and> Success response \<and> MaxCharLimit discussion < 0")
    case True
    with Pair agentTurn_panic [of CallAgent st agent round discussion i n response moderator]
    show ?thesis by (intro panic) auto
  next
    case False
    define e where "e = \<lparr>DiscussionLog.ID = seq_discussion_logs (database st) + 1,
                 DiscussionID = Discussion.ID discussion, AgentID = Agent.ID agent,
                 Content = (case err of
                              Some msg \<Rightarrow> ''Error: '' @ msg
                            | None \<Rightarrow>
                                if \<not> Success response then ''Error: '' @ ErrorMessage response
                                else if int (length (AgentResponse.Content response))
                                          > MaxCharLimit discussion
                                then take (nat (MaxCharLimit discussion))
                                       (AgentResponse.Content response)
                                else AgentResponse.Content response),
                 Status = (if err = None \<and> Success response then ''success'' else ''error''),
                 ResponseTime = AgentResponse.ResponseTime response, IsModerator = False\<rparr>"
    define st' where "st' = st\<lparr>ncalls := ncalls st + 1,
                roundActive := (roundActive st \<or> DiscussionLog.Status e = ''success''),
                debateContext :=
                  (if DiscussionLog.Status e = ''success''
                   then (if debateContext st \<noteq> [] then debateContext st @ ''\<newline>\<newline>''
                         else debateContext st)
                        @ contextHeader round agent @ ''\<newline>'' @ DiscussionLog.Content e
                   else debateContext st),
                database := (database st)
                  \<lparr>t_discussion_logs := t_discussion_logs (database st) @ [e],
                   seq_discussion_logs := seq_discussion_logs (database st) + 1\<rparr>,
                events := events st @ [LogEvent e],
                turns := turns st @ [\<lparr>turnRound = round, speaker = agent,
                                      priorContext = debateContext st, entry = Some e\<rparr>]\<rparr>"
    from False have np: "\<not> (err = None \<and> Success response
                      \<and> int (length (AgentResponse.Content response)) > MaxCharLimit discussion
                      \<and> MaxCharLimit discussion < 0)" by blast
    have u: "agentTurn CallAgent discussion moderator round n i agent st =
           (case moderator of
              Some m \<Rightarrow>
                if int i < int n - 1
                then snd (callModerator CallAgent discussion m ''interim''
                            (AgentResponse.Content response) st')
                else st'
            | None \<Rightarrow> st')"
      by (rule agentTurn_unfold [where response = response and err = err and e = e])
         (rule Pair np e_def st'_def)+
    have bound: "DiscussionLog.Status e = ''success'' \<longrightarrow>
         int (length (DiscussionLog.Content e)) \<le> MaxCharLimit discussion"
      using False by (auto simp: e_def)
    have "agentTurn CallAgent discussion moderator round n i agent st = st'
       \<or> (\<exists>m c. moderator = Some m \<and>
             agentTurn CallAgent discussion moderator round n i agent st =
               snd (callModerator CallAgent discussion m ''interim'' c st'))"
      unfolding u by (cases moderator) auto
    then show ?thesis
      by (intro turn [of st' e]) (use bound in \<open>auto simp: st'_def e_def\<close>)
  qed
qed

subsection \<open>The transcript\<close>

lemma joinBlocks_snoc:
  "joinBlocks (bs @ [b]) = (if bs = [] then b else joinBlocks bs @ ''\<newline>\<newline>'' @ b)"
  by (induction bs rule: joinBlocks.induct) auto

lemma joinBlocks_empty:
  "\<forall>b \<in> set bs. b \<noteq> [] \<Longrightarrow> joinBlocks bs = [] \<longleftrightarrow> bs = []"
  by (induction bs rule: joinBlocks.induct) auto

lemma block_nonempty: "block t = Some b \<Longrightarrow> b \<noteq> []"
  by (auto simp: block_def split: option.splits if_splits)

lemma blocks_nonempty: "\<forall>b \<in> set (List.map_filter block ts). b \<noteq> []"
  by (auto simp: List.map_filter_def dest: block_nonempty)

lemma transcript_Nil [simp]: "transcript [] = []"
  by (simp add: transcript_def List.map_filter_def)

lemma transcript_snoc:
  "transcript (ts @ [t]) =
     (case block t of
        None \<Rightarrow> transcript ts
      | Some b \<Rightarrow> (if transcript ts \<noteq> [] then transcript ts @ ''\<newline>\<newline>'' else transcript ts) @ b)"
proof (cases "block t")
  case None
  then show ?thesis by (simp add: transcript_def List.map_filter_def)
next
  case (Some b)
  have e: "transcript ts = [] \<longleftrightarrow> List.map_filter block ts = []"
    unfolding transcript_def by (rule joinBlocks_empty) (rule blocks_nonempty)
  have "List.map_filter block (ts @ [t]) = List.map_filter block ts @ [b]"
    using Some by (simp add: List.map_filter_def)
  then have "transcript (ts @ [t]) = joinBlocks (List.map_filter block ts @ [b])"
    by (simp add: transcript_def)
  also have "\<dots> = (if transcript ts \<noteq> [] then transcript ts @ ''\<newline>\<newline>'' else transcript ts) @ b"
    using e by (simp add: joinBlocks_snoc transcript_def)
  finally show ?thesis using Some by simp
qed

lemma transcript_no_success:
  "\<forall>t \<in> set ts. \<forall>e. entry t = Some e \<longrightarrow> DiscussionLog.Status e \<noteq> ''success'' \<Longrightarrow>
   transcript ts = []"
proof -
  assume a: "\<forall>t \<in> set ts. \<forall>e. entry t = Some e \<longrightarrow> DiscussionLog.Status e \<noteq> ''success''"
  have "\<forall>t \<in> set ts. block t = None"
    using a by (auto simp: block_def split: option.splits)
  then have "List.map_filter block ts = []"
    by (simp add: List.map_filter_def filter_empty_conv)
  then show ?thesis by (simp add: transcript_def)
qed

subsection \<open>The invariant of a run\<close>

lemma runInv_init: "runInv discussion db (initExec db)"
  by (simp add: runInv_def initExec_def List.map_filter_def)

lemma runInv_frame:
  "runInv discussion db st \<Longrightarrow>
   t_discussion_logs (database st') = t_discussion_logs (database st) \<Longrightarrow>
   turns st' = turns st \<Longrightarrow> debateContext st' = debateContext st \<Longrightarrow>
   panicked st' = panicked st \<Longrightarrow> runInv discussion db st'"
  by (simp add: runInv_def)

lemma runInv_moderator_entry:
  assumes "runInv discussion db st" and "IsModerator e"
    and "DiscussionLog.Status e = ''success'' \<or> DiscussionLog.Status e = ''error''"
    and "t_discussion_logs (database st') = t_discussion_logs (database st) @ [e]"
    and "turns st' = turns st" and "debateContext st' = debateContext st"
    and "panicked st' = panicked st"
  shows "runInv discussion db st'"
proof -
  from assms(1) obtain new where
    n: "t_discussion_logs (database st) = t_discussion_logs db @ new"
       "\<forall>l \<in> set new.
              (DiscussionLog.Status l = ''success'' \<or> DiscussionLog.Status l = ''error'')
              \<and> (\<not> IsModerator l \<and> DiscussionLog.Status l = ''success''
                   \<longrightarrow> int (length (DiscussionLog.Content l)) \<le> MaxCharLimit discussion)"
       "filter (\<lambda>l. \<not> IsModerator l) new = List.map_filter entry (turns st)"
    and r: "debateContext st = transcript (turns st)"
       "\<forall>k < length (turns st). priorContext (turns st ! k) = transcript (take k (turns st))"
       "panicked st \<longleftrightarrow> (\<exists>t \<in> set (turns st). entry t = None)"
    unfolding runInv_def by blast
  have "t_discussion_logs (database st') = t_discussion_logs db @ (new @ [e])"
    using n(1) assms(4) by simp
  moreover have "\<forall>l \<in> set (new @ [e]).
              (DiscussionLog.Status l = ''success'' \<or> DiscussionLog.Status l = ''error'')
              \<and> (\<not> IsModerator l \<and> DiscussionLog.Status l = ''success''
                   \<longrightarrow> int (length (DiscussionLog.Content l)) \<le> MaxCharLimit discussion)"
    using n(2) assms(2,3) by auto
  moreover have "filter (\<lambda>l. \<not> IsModerator l) (new @ [e]) = List.map_filter entry (turns st')"
    using n(3) assms(2,5) by simp
  ultimately show ?thesis
    unfolding runInv_def using r assms(5,6,7) by (intro conjI exI [of _ "new @ [e]"]) simp_all
qed

lemma runInv_callModerator:
  assumes "runInv discussion db st"
  shows "runInv discussion db
           (snd (callModerator CallAgent discussion m moderatorType contextStr st))"
proof -
  from callModerator_effect [of CallAgent discussion m moderatorType contextStr st]
  obtain e where
    s: "snd (callModerator CallAgent discussion m moderatorType contextStr st) =
         st\<lparr>ncalls := ncalls st + 1,
            database := (database st)
              \<lparr>t_discussion_logs := t_discussion_logs (database st) @ [e],
               seq_discussion_logs := seq_discussion_logs (database st) + 1\<rparr>,
            events := events st @ [LogEvent e]\<rparr>"
    and e: "IsModerator e"
      "DiscussionLog.Status e = ''success'' \<or> DiscussionLog.Status e = ''error''"
    by blast
  show ?thesis
    by (rule runInv_moderator_entry [OF assms e]) (simp_all add: s)
qed

lemma runInv_turn_entry:
  assumes "runInv discussion db st" and "\<not> IsModerator e"
    and "DiscussionLog.Status e = ''success'' \<or> DiscussionLog.Status e = ''error''"
    and "DiscussionLog.Status e = ''success'' \<longrightarrow>
           int (length (DiscussionLog.Content e)) \<le> MaxCharLimit discussion"
    and "t_discussion_logs (database st') = t_discussion_logs (database st) @ [e]"
    and "turns st' = turns st @ [\<lparr>turnRound = round, speaker = agent,
                                   priorContext = debateContext st, entry = Some e\<rparr>]"
    and "debateContext st' =
           (if DiscussionLog.Status e = ''success''
            then (if debateContext st \<noteq> [] then debateContext st @ ''\<newline>\<newline>''
                  else debateContext st)
                 @ contextHeader round agent @ ''\<newline>'' @ DiscussionLog.Content e
            else debateContext st)"
    and "panicked st' = panicked st"
  shows "runInv discussion db st'"
proof -
  from assms(1) obtain new where
    n: "t_discussion_logs (database st) = t_discussion_logs db @ new"
       "\<forall>l \<in> set new.
              (DiscussionLog.Status l = ''success'' \<or> DiscussionLog.Status l = ''error'')
              \<and> (\<not> IsModerator l \<and> DiscussionLog.Status l = ''success''
                   \<longrightarrow> int (length (DiscussionLog.Content l)) \<le> MaxCharLimit discussion)"
       "filter (\<lambda>l. \<not> IsModerator l) new = List.map_filter entry (turns st)"
    and r: "debateContext st = transcript (turns st)"
       "\<forall>k < length (turns st). priorContext (turns st ! k) = transcript (take k (turns st))"
       "panicked st \<longleftrightarrow> (\<exists>t \<in> set (turns st). entry t = None)"
    unfolding runInv_def by blast
  have 1: "t_discussion_logs (database st') = t_discussion_logs db @ (new @ [e])"
    using n(1) assms(5) by simp
  have 2: "\<forall>l \<in> set (new @ [e]).
              (DiscussionLog.Status l = ''success'' \<or> DiscussionLog.Status l = ''error'')
              \<and> (\<not> IsModerator l \<and> DiscussionLog.Status l = ''success''
                   \<longrightarrow> int (length (DiscussionLog.Content l)) \<le> MaxCharLimit discussion)"
    using n(2) assms(3,4) by auto
  have 3: "filter (\<lambda>l. \<not> IsModerator l) (new @ [e]) = List.map_filter entry (turns st')"
    using n(3) assms(2,6) by (simp add: List.map_filter_def)
  have b: "\<And>p. block \<lparr>turnRound = round, speaker = agent, priorContext = p, entry = Some e\<rparr>
                = (if DiscussionLog.Status e = ''success''
                   then Some (contextHeader round agent @ ''\<newline>'' @ DiscussionLog.Content e)
                   else None)"
    by (simp add: block_def)
  have 4: "debateContext st' = transcript (turns st')"
    using assms(6,7) r(1) by (simp add: transcript_snoc b)
  have 5: "\<forall>k < length (turns st'). priorContext (turns st' ! k) = transcript (take k (turns st'))"
  proof (intro allI impI)
    fix k assume "k < length (turns st')"
    then consider "k < length (turns st)" | "k = length (turns st)"
      using assms(6) by fastforce
    then show "priorContext (turns st' ! k) = transcript (take k (turns st'))"
    proof cases
      case 1
      then show ?thesis using r(2) assms(6) by (simp add: nth_append)
    next
      case 2
      then show ?thesis using r(1) assms(6) by simp
    qed
  qed
  have 6: "panicked st' \<longleftrightarrow> (\<exists>t \<in> set (turns st'). entry t = None)"
    using r(3) assms(6,8) by auto
  show ?thesis
    unfolding runInv_def using 1 2 3 4 5 6 by blast
qed

lemma runInv_turn_aborted:
  assumes "runInv discussion db st"
    and "t_discussion_logs (database st') = t_discussion_logs (database st)"
    and "turns st' = turns st @ [\<lparr>turnRound = round, speaker = agent,
                                   priorContext = debateContext st, entry = None\<rparr>]"
    and "debateContext st' = debateContext st"
    and "panicked st'"
  shows "runInv discussion db st'"
proof -
  from assms(1) obtain new where
    n: "t_discussion_logs (database st) = t_discussion_logs db @ new"
       "\<forall>l \<in> set new.
              (DiscussionLog.Status l = ''success'' \<or> DiscussionLog.Status l = ''error'')
              \<and> (\<not> IsModerator l \<and> DiscussionLog.Status l = ''success''
                   \<longrightarrow> int (length (DiscussionLog.Content l)) \<le> MaxCharLimit discussion)"
       "filter (\<lambda>l. \<not> IsModerator l) new = List.map_filter entry (turns st)"
    and r: "debateContext st = transcript (turns st)"
       "\<forall>k < length (turns st). priorContext (turns st ! k) = transcript (take k (turns st))"
    unfolding runInv_def by blast
  have 1: "t_discussion_logs (database st') = t_discussion_logs db @ new"
    using n(1) assms(2) by simp
  have 3: "filter (\<lambda>l. \<not> IsModerator l) new = List.map_filter entry (turns st')"
    using n(3) assms(3) by (simp add: List.map_filter_def)
  have b: "\<And>p. block \<lparr>turnRound = round, speaker = agent, priorContext = p, entry = None\<rparr>
                = None"
    by (simp add: block_def)
  have 4: "debateContext st' = transcript (turns st')"
    using assms(3,4) r(1) by (simp add: transcript_snoc b)
  have 5: "\<forall>k < length (turns st'). priorContext (turns st' ! k) = transcript (take k (turns st'))"
  proof (intro allI impI)
    fix k assume "k < length (turns st')"
    then consider "k < length (turns st)" | "k = length (turns st)"
      using assms(3) by fastforce
    then show "priorContext (turns st' ! k) = transcript (take k (turns st'))"
    proof cases
      case 1
      then show ?thesis using r(2) assms(3) by (simp add: nth_append)
    next
      case 2
      then show ?thesis using r(1) assms(3) by simp
    qed
  qed
  have 6: "panicked st' \<longleftrightarrow> (\<exists>t \<in> set (turns st'). entry t = None)"
    using assms(3,5) by auto
  show ?thesis
    unfolding runInv_def using 1 n(2) 3 4 5 6 by blast
qed

lemma runInv_agentTurn:
  assumes "runInv discussion db st"
  shows "runInv discussion db (agentTurn CallAgent discussion moderator round n i agent st)"
proof (cases rule: agentTurn_cases [of discussion CallAgent moderator round n i agent st])
  case panic
  show ?thesis
    by (rule runInv_turn_aborted [OF assms, of _ round agent]) (simp_all add: panic(2))
next
  case (turn e st')
  have i: "runInv discussion db st'"
    by (rule runInv_turn_entry [OF assms turn(2,3,4), of _ round agent])
       (simp_all add: turn(1))
  from turn(5) show ?thesis
  proof
    assume "agentTurn CallAgent discussion moderator round n i agent st = st'"
    with i show ?thesis by simp
  next
    assume "\<exists>m c. moderator = Some m \<and>
             agentTurn CallAgent discussion moderator round n i agent st =
               snd (callModerator CallAgent discussion m ''interim'' c st')"
    then obtain m c where
      "agentTurn CallAgent discussion moderator round n i agent st =
               snd (callModerator CallAgent discussion m ''interim'' c st')" by blast
    with runInv_callModerator [OF i] show ?thesis by simp
  qed
qed

lemma runInv_agentsLoop:
  "runInv discussion db st \<Longrightarrow>
   runInv discussion db (agentsLoop CallAgent discussion moderator round n i agents st)"
  by (induction agents arbitrary: i st) (simp_all add: Let_def runInv_agentTurn)

lemma runInv_runRound:
  assumes "runInv discussion db st"
  shows "runInv discussion db (runRound CallAgent discussion agents moderator round st)"
proof -
  have "runInv discussion db (st\<lparr>roundActive := False\<rparr>)"
    by (rule runInv_frame [OF assms]) simp_all
  then have "runInv discussion db
               (agentsLoop CallAgent discussion moderator round (length agents) 0 agents
                  (st\<lparr>roundActive := False\<rparr>))"
    by (rule runInv_agentsLoop)
  then show ?thesis
    by (cases moderator) (simp_all add: runRound_def Let_def runInv_callModerator)
qed

lemma runInv_roundLoop:
  "runInv discussion db st \<Longrightarrow>
   runInv discussion db (roundLoop CallAgent discussion agents moderator maxRounds round st)"
proof (induction CallAgent discussion agents moderator maxRounds round st
       rule: roundLoop.induct)
  case (1 CallAgent discussion agents moderator maxRounds round st)
  let ?s = "runRound CallAgent discussion agents moderator round st"
  have s: "runInv discussion db ?s" by (rule runInv_runRound [OF "1.prems"])
  have c: "runInv discussion db (?s\<lparr>roundCount := roundCount ?s + 1\<rparr>)"
    by (rule runInv_frame [OF s]) simp_all
  show ?case
    using "1.prems" s "1.IH" [OF _ refl _ _ c]
    by (subst roundLoop.simps) (simp add: Let_def)
qed

lemma updateDiscussion_frame [simp]:
  "t_discussion_logs (database (updateDiscussion d st)) = t_discussion_logs (database st)"
  "turns (updateDiscussion d st) = turns st"
  "debateContext (updateDiscussion d st) = debateContext st"
  "panicked (updateDiscussion d st) = panicked st"
  "roundCount (updateDiscussion d st) = roundCount st"
  by (simp_all add: updateDiscussion_def UpdateDiscussion_def split: sum.splits)

lemma runInv_updateDiscussion:
  "runInv discussion db st \<Longrightarrow> runInv discussion db (updateDiscussion d st)"
  by (erule runInv_frame) simp_all

lemma runInv_executeDebate:
  "runInv discussion db (snd (executeDebate CallAgent db discussion agents moderator))"
proof -
  let ?s0 = "case moderator of
               Some m \<Rightarrow> snd (callModerator CallAgent discussion m ''opening'' [] (initExec db))
             | None \<Rightarrow> initExec db"
  let ?R = "if MaxRounds discussion \<le> 0 then 3 else MaxRounds discussion"
  let ?s1 = "roundLoop CallAgent discussion agents moderator ?R 1 ?s0"
  let ?s2 = "case moderator of
               Some m \<Rightarrow> snd (callModerator CallAgent discussion m ''closing'' [] ?s1)
             | None \<Rightarrow> ?s1"
  have 0: "runInv discussion db ?s0"
    by (cases moderator) (simp_all add: runInv_init runInv_callModerator)
  then have 1: "runInv discussion db ?s1" by (rule runInv_roundLoop)
  then have 2: "runInv discussion db ?s2"
    by (cases moderator) (simp_all add: runInv_callModerator)
  have e: "\<And>d d' ev. runInv discussion db
             (updateDiscussion d' ((updateDiscussion d ?s2)\<lparr>events := ev\<rparr>))"
    by (rule runInv_updateDiscussion, rule runInv_frame [OF runInv_updateDiscussion [OF 2]])
       simp_all
  show ?thesis
    unfolding executeDebate_def Let_def
    using 1 e by (simp add: runInv_updateDiscussion)
qed

subsection \<open>The turns of a round and of a run\<close>

lemma callModerator_frame [simp]:
  "turns (snd (callModerator CallAgent discussion m moderatorType contextStr st)) = turns st"
  "debateContext (snd (callModerator CallAgent discussion m moderatorType contextStr st))
     = debateContext st"
  "roundActive (snd (callModerator CallAgent discussion m moderatorType contextStr st))
     = roundActive st"
  "roundCount (snd (callModerator CallAgent discussion m moderatorType contextStr st))
     = roundCount st"
  "panicked (snd (callModerator CallAgent discussion m moderatorType contextStr st))
     = panicked st"
  using callModerator_effect [of CallAgent discussion m moderatorType contextStr st]
  by auto

lemma agentTurn_turns:
  "\<exists>t. turns (agentTurn CallAgent discussion moderator round n i agent st) = turns st @ [t]
     \<and> turnRound t = round
     \<and> (roundActive (agentTurn CallAgent discussion moderator round n i agent st)
          \<longleftrightarrow> roundActive st
               \<or> (\<exists>e. entry t = Some e \<and> DiscussionLog.Status e = ''success''))
     \<and> (panicked (agentTurn CallAgent discussion moderator round n i agent st)
          \<longleftrightarrow> panicked st \<or> entry t = None)
     \<and> (0 \<le> MaxCharLimit discussion \<longrightarrow> entry t \<noteq> None)
     \<and> roundCount (agentTurn CallAgent discussion moderator round n i agent st)
         = roundCount st"
proof (cases rule: agentTurn_cases [of discussion CallAgent moderator round n i agent st])
  case panic
  then show ?thesis by simp
next
  case (turn e st')
  let ?t = "\<lparr>turnRound = round, speaker = agent, priorContext = debateContext st,
             entry = Some e\<rparr>"
  have s: "turns st' = turns st @ [?t]"
    "roundActive st' \<longleftrightarrow> roundActive st \<or> DiscussionLog.Status e = ''success''"
    "panicked st' = panicked st" "roundCount st' = roundCount st"
    by (simp_all add: turn(1))
  from turn(5)
  have "turns (agentTurn CallAgent discussion moderator round n i agent st) = turns st'
      \<and> roundActive (agentTurn CallAgent discussion moderator round n i agent st)
          = roundActive st'
      \<and> panicked (agentTurn CallAgent discussion moderator round n i agent st) = panicked st'
      \<and> roundCount (agentTurn CallAgent discussion moderator round n i agent st)
          = roundCount st'"
    by auto
  with s show ?thesis by (intro exI [of _ ?t]) simp
qed

lemma agentsLoop_turns:
  "\<exists>added.
     turns (agentsLoop CallAgent discussion moderator round n i agents st) = turns st @ added
     \<and> (\<forall>t \<in> set added. turnRound t = round)
     \<and> length added \<le> length agents
     \<and> (\<not> panicked (agentsLoop CallAgent discussion moderator round n i agents st)
          \<longrightarrow> length added = length agents)
     \<and> (roundActive (agentsLoop CallAgent discussion moderator round n i agents st)
          \<longleftrightarrow> roundActive st
               \<or> (\<exists>t \<in> set added. \<exists>e. entry t = Some e \<and> DiscussionLog.Status e = ''success''))
     \<and> (panicked (agentsLoop CallAgent discussion moderator round n i agents st)
          \<longleftrightarrow> panicked st \<or> (\<exists>t \<in> set added. entry t = None))
     \<and> (0 \<le> MaxCharLimit discussion \<longrightarrow> (\<forall>t \<in> set added. entry t \<noteq> None))
     \<and> roundCount (agentsLoop CallAgent discussion moderator round n i agents st)
         = roundCount st"
proof (induction agents arbitrary: i st)
  case Nil
  show ?case by (intro exI [of _ "[]"]) simp
next
  case (Cons agent rest)
  let ?s = "agentTurn CallAgent discussion moderator round n i agent st"
  from agentTurn_turns [of CallAgent discussion moderator round n i agent st]
  obtain t where t: "turns ?s = turns st @ [t]
     \<and> turnRound t = round
     \<and> (roundActive ?s \<longleftrightarrow> roundActive st
          \<or> (\<exists>e. entry t = Some e \<and> DiscussionLog.Status e = ''success''))
     \<and> (panicked ?s \<longleftrightarrow> panicked st \<or> entry t = None)
     \<and> (0 \<le> MaxCharLimit discussion \<longrightarrow> entry t \<noteq> None)
     \<and> roundCount ?s = roundCount st" ..
  show ?case
  proof (cases "panicked ?s")
    case True
    then have "agentsLoop CallAgent discussion moderator round n i (agent # rest) st = ?s"
      by (simp add: Let_def)
    with True t show ?thesis by (intro exI [of _ "[t]"]) auto
  next
    case False
    let ?r = "agentsLoop CallAgent discussion moderator round n (i + 1) rest ?s"
    from False have u: "agentsLoop CallAgent discussion moderator round n i (agent # rest) st = ?r"
      by (simp add: Let_def)
    from Cons.IH [of "i + 1" ?s]
    obtain added where a: "turns ?r = turns ?s @ added
      \<and> (\<forall>t \<in> set added. turnRound t = round)
      \<and> length added \<le> length rest
      \<and> (\<not> panicked ?r \<longrightarrow> length added = length rest)
      \<and> (roundActive ?r \<longleftrightarrow> roundActive ?s
          \<or> (\<exists>t \<in> set added. \<exists>e. entry t = Some e \<and> DiscussionLog.Status e = ''success''))
      \<and> (panicked ?r \<longleftrightarrow> panicked ?s \<or> (\<exists>t \<in> set added. entry t = None))
      \<and> (0 \<le> MaxCharLimit discussion \<longrightarrow> (\<forall>t \<in> set added. entry t \<noteq> None))
      \<and> roundCount ?r = roundCount ?s" ..
    show ?thesis
      unfolding u using t a False by (intro exI [of _ "t # added"]) auto
  qed
qed

lemma runRound_turns:
  "\<exists>added.
     turns (runRound CallAgent discussion agents moderator round st) = turns st @ added
     \<and> (\<forall>t \<in> set added. turnRound t = round)
     \<and> length added \<le> length agents
     \<and> (\<not> panicked (runRound CallAgent discussion agents moderator round st)
          \<longrightarrow> length added = length agents)
     \<and> (roundActive (runRound CallAgent discussion agents moderator round st)
          \<longleftrightarrow> (\<exists>t \<in> set added. \<exists>e. entry t = Some e \<and> DiscussionLog.Status e = ''success''))
     \<and> (panicked (runRound CallAgent discussion agents moderator round st)
          \<longleftrightarrow> panicked st \<or> (\<exists>t \<in> set added. entry t = None))
     \<and> (0 \<le> MaxCharLimit discussion \<longrightarrow> (\<forall>t \<in> set added. entry t \<noteq> None))
     \<and> roundCount (runRound CallAgent discussion agents moderator round st) = roundCount st"
proof -
  let ?a = "agentsLoop CallAgent discussion moderator round (length agents) 0 agents
              (st\<lparr>roundActive := False\<rparr>)"
  have r: "turns (runRound CallAgent discussion agents moderator round st) = turns ?a"
    "roundActive (runRound CallAgent discussion agents moderator round st) = roundActive ?a"
    "panicked (runRound CallAgent discussion agents moderator round st) = panicked ?a"
    "roundCount (runRound CallAgent discussion agents moderator round st) = roundCount ?a"
    by (cases moderator; simp add: runRound_def Let_def)+
  from agentsLoop_turns [of CallAgent discussion moderator round "length agents" 0 agents
         "st\<lparr>roundActive := False\<rparr>"]
  show ?thesis unfolding r by simp
qed

lemma roundLoop_turns:
  "\<exists>added.
     turns (roundLoop CallAgent discussion agents moderator maxRounds round st)
       = turns st @ added
     \<and> int (length added) \<le> int (length agents) * max 0 (maxRounds + 1 - round)
     \<and> (0 \<le> MaxCharLimit discussion \<and> \<not> panicked st \<longrightarrow>
          \<not> panicked (roundLoop CallAgent discussion agents moderator maxRounds round st)
          \<and> (round \<le> maxRounds \<longrightarrow> length agents \<le> length added))"
proof (induction CallAgent discussion agents moderator maxRounds round st
       rule: roundLoop.induct)
  case (1 CallAgent discussion agents moderator maxRounds round st)
  let ?s = "runRound CallAgent discussion agents moderator round st"
  let ?c = "?s\<lparr>roundCount := roundCount ?s + 1\<rparr>"
  let ?L = "roundLoop CallAgent discussion agents moderator maxRounds round st"
  show ?case
  proof (cases "round \<le> maxRounds")
    case False
    then have "?L = st" by (subst roundLoop.simps) simp
    with False show ?thesis by (intro exI [of _ "[]"]) simp
  next
    case le: True
    from runRound_turns [of CallAgent discussion agents moderator round st]
    obtain a1 where a1': "turns ?s = turns st @ a1
     \<and> (\<forall>t \<in> set a1. turnRound t = round)
     \<and> length a1 \<le> length agents
     \<and> (\<not> panicked ?s \<longrightarrow> length a1 = length agents)
     \<and> (roundActive ?s
          \<longleftrightarrow> (\<exists>t \<in> set a1. \<exists>e. entry t = Some e \<and> DiscussionLog.Status e = ''success''))
     \<and> (panicked ?s \<longleftrightarrow> panicked st \<or> (\<exists>t \<in> set a1. entry t = None))
     \<and> (0 \<le> MaxCharLimit discussion \<longrightarrow> (\<forall>t \<in> set a1. entry t \<noteq> None))
     \<and> roundCount ?s = roundCount st" ..
    then have a1: "turns ?s = turns st @ a1" "length a1 \<le> length agents"
      "\<not> panicked ?s \<longrightarrow> length a1 = length agents"
      "panicked ?s \<longleftrightarrow> panicked st \<or> (\<exists>t \<in> set a1. entry t = None)"
      "0 \<le> MaxCharLimit discussion \<longrightarrow> (\<forall>t \<in> set a1. entry t \<noteq> None)"
      by simp_all
    from le have one: "int (length agents) \<le> int (length agents) * max 0 (maxRounds + 1 - round)"
      by (simp add: mult_le_cancel_left1)
    show ?thesis
    proof (cases "panicked ?s \<or> \<not> roundActive ?s")
      case True
      with le have "?L = ?s" by (subst roundLoop.simps) (auto simp: Let_def)
      with a1 one show ?thesis by (intro exI [of _ a1]) auto
    next
      case False
      with le have u: "?L = roundLoop CallAgent discussion agents moderator maxRounds
                              (round + 1) ?c"
        by (subst roundLoop.simps) (simp add: Let_def)
      from False have np: "\<not> panicked ?s" and ra: "roundActive ?s" by simp_all
      from "1.IH" [OF le refl np] ra
      obtain a2 where a2': "turns ?L = turns ?c @ a2
        \<and> int (length a2) \<le> int (length agents) * max 0 (maxRounds + 1 - (round + 1))
        \<and> (0 \<le> MaxCharLimit discussion \<and> \<not> panicked ?c \<longrightarrow>
              \<not> panicked ?L \<and> (round + 1 \<le> maxRounds \<longrightarrow> length agents \<le> length a2))"
        unfolding u by auto
      then have a2: "turns ?L = turns ?c @ a2"
        "int (length a2) \<le> int (length agents) * max 0 (maxRounds + 1 - (round + 1))"
        "0 \<le> MaxCharLimit discussion \<and> \<not> panicked ?c \<longrightarrow> \<not> panicked ?L"
        by simp_all
      have "int (length agents) * max 0 (maxRounds + 1 - (round + 1)) + int (length agents)
              = int (length agents) * max 0 (maxRounds + 1 - round)"
        using le by (simp add: algebra_simps max_def)
      with a1 a2 False have "int (length (a1 @ a2))
              \<le> int (length agents) * max 0 (maxRounds + 1 - round)"
        by auto
      moreover have "turns ?L = turns st @ (a1 @ a2)" using a1 a2 by simp
      moreover have "0 \<le> MaxCharLimit discussion \<and> \<not> panicked st \<longrightarrow>
          \<not> panicked ?L \<and> (round \<le> maxRounds \<longrightarrow> length agents \<le> length (a1 @ a2))"
        using a1 a2 False by auto
      ultimately show ?thesis by (intro exI [of _ "a1 @ a2"]) blast
    qed
  qed
qed

lemma executeDebate_turns:
  "turns (snd (executeDebate CallAgent db discussion agents moderator)) =
     turns (roundLoop CallAgent discussion agents moderator
              (if MaxRounds discussion \<le> 0 then 3 else MaxRounds discussion) 1
              (case moderator of
                 Some m \<Rightarrow> snd (callModerator CallAgent discussion m ''opening'' [] (initExec db))
               | None \<Rightarrow> initExec db))"
  "panicked (snd (executeDebate CallAgent db discussion agents moderator)) =
     panicked (roundLoop CallAgent discussion agents moderator
              (if MaxRounds discussion \<le> 0 then 3 else MaxRounds discussion) 1
              (case moderator of
                 Some m \<Rightarrow> snd (callModerator CallAgent discussion m ''opening'' [] (initExec db))
               | None \<Rightarrow> initExec db))"
  "roundCount (snd (executeDebate CallAgent db discussion agents moderator)) =
     roundCount (roundLoop CallAgent discussion agents moderator
              (if MaxRounds discussion \<le> 0 then 3 else MaxRounds discussion) 1
              (case moderator of
                 Some m \<Rightarrow> snd (callModerator CallAgent discussion m ''opening'' [] (initExec db))
               | None \<Rightarrow> initExec db))"
  by (cases moderator; simp add: executeDebate_def Let_def)+

lemma opening_state:
  "turns (case moderator of
            Some m \<Rightarrow> snd (callModerator CallAgent discussion m ''opening'' [] (initExec db))
          | None \<Rightarrow> initExec db) = []"
  "\<not> panicked (case moderator of
            Some m \<Rightarrow> snd (callModerator CallAgent discussion m ''opening'' [] (initExec db))
          | None \<Rightarrow> initExec db)"
  "roundCount (case moderator of
            Some m \<Rightarrow> snd (callModerator CallAgent discussion m ''opening'' [] (initExec db))
          | None \<Rightarrow> initExec db) = 1"
  by (cases moderator; simp add: initExec_def)+

lemma map_filter_entry_length:
  "\<forall>t \<in> set ts. entry t \<noteq> None \<Longrightarrow> length (List.map_filter entry ts) = length ts"
  by (induction ts) (auto simp: List.map_filter_def)

subsection \<open>The context handed to a participant\<close>

text \<open>
  Claim C2, as amended. In every debate, the context string handed to the adapter for a
  participant's turn is exactly the transcript of the participants' turns before it: the
  blocks (header line and stored content) of the successful participant entries produced
  strictly before the turn, in order and two line feeds apart, and nothing else. The
  entries of the turns are the participant entries that the run has stored. Moderator
  interjections are not part of the context.
\<close>

theorem executeDebate_prior_context:
  assumes "st = snd (executeDebate CallAgent db discussion agents moderator)"
  shows "(\<forall>k < length (turns st).
            priorContext (turns st ! k) = transcript (take k (turns st)))
    \<and> filter (\<lambda>l. \<not> IsModerator l) (entriesSince db st) = List.map_filter entry (turns st)"
  using runInv_executeDebate [of discussion db CallAgent agents moderator]
  unfolding assms runInv_def entriesSince_def by auto

text \<open>
  An instance: in a round of two answering participants, the second is handed the block of
  the first.
\<close>

theorem executeDebate_prior_context_witness:
  "1 < length (turns (snd (demoRun answering 1 100 None)))
   \<and> priorContext (turns (snd (demoRun answering 1 100 None)) ! 1)
       = transcript (take 1 (turns (snd (demoRun answering 1 100 None))))
   \<and> transcript (take 1 (turns (snd (demoRun answering 1 100 None))))
       = ''Round 1 - Agent Ann (1):\<newline>Ann''"
proof -
  have l: "1 < length (turns (snd (demoRun answering 1 100 None)))"
    by code_simp
  have t: "transcript (take 1 (turns (snd (demoRun answering 1 100 None))))
             = ''Round 1 - Agent Ann (1):\<newline>Ann''"
    by code_simp
  from executeDebate_prior_context
         [of "snd (demoRun answering 1 100 None)" answering demoDB "debate 1 100"
             "[ann, bob]" None] l
  have "priorContext (turns (snd (demoRun answering 1 100 None)) ! 1)
          = transcript (take 1 (turns (snd (demoRun answering 1 100 None))))"
    by (simp add: demoRun_def)
  with l t show ?thesis by simp
qed

text \<open>
  Claim C2 as stated fails: with a moderator, the first entries of the run are the
  moderator's successful opening, the first participant's entry and the moderator's
  successful interim remark; the first participant is handed the empty context and the
  second only the first participant's block.
\<close>

theorem executeDebate_context_without_moderator:
  "map (\<lambda>l. (IsModerator l, DiscussionLog.Status l, DiscussionLog.Content l))
     (take 3 (entriesSince demoDB (snd (demoRun answering 1 100 (Some moe)))))
   = [(True, ''success'', ''[Moderator - Opening Remarks]\<newline>Moe''),
      (False, ''success'', ''Ann''),
      (True, ''success'', ''[Moderator - Interim Moderation]\<newline>Moe'')]
   \<and> map priorContext (turns (snd (demoRun answering 1 100 (Some moe))))
       = [[], ''Round 1 - Agent Ann (1):\<newline>Ann'']
   \<and> \<not> Contains (priorContext (turns (snd (demoRun answering 1 100 (Some moe))) ! 1))
         ''[Moderator - Opening Remarks]\<newline>Moe''"
  by code_simp

subsection \<open>Stored entries\<close>

text \<open>
  Claim C3, as amended. For every log entry that a debate stores for an ordinary
  participant turn with the status \<open>success\<close>, the length of the stored content does not
  exceed the debate's configured character limit.
\<close>

theorem participant_success_within_limit:
  assumes "st = snd (executeDebate CallAgent db discussion agents moderator)"
    and "l \<in> set (entriesSince db st)"
    and "\<not> IsModerator l"
    and "DiscussionLog.Status l = ''success''"
  shows "int (length (DiscussionLog.Content l)) \<le> MaxCharLimit discussion"
  using runInv_executeDebate [of discussion db CallAgent agents moderator] assms(2-4)
  unfolding assms(1) runInv_def entriesSince_def by auto

text \<open>An instance: with the limit 2, the answer \<open>Ann\<close> is stored as \<open>An\<close>.\<close>

theorem participant_success_within_limit_witness:
  "entriesSince demoDB (snd (demoRun answering 1 2 None)) ! 0
     \<in> set (entriesSince demoDB (snd (demoRun answering 1 2 None)))
   \<and> \<not> IsModerator (entriesSince demoDB (snd (demoRun answering 1 2 None)) ! 0)
   \<and> DiscussionLog.Status (entriesSince demoDB (snd (demoRun answering 1 2 None)) ! 0)
       = ''success''
   \<and> DiscussionLog.Content (entriesSince demoDB (snd (demoRun answering 1 2 None)) ! 0)
       = ''An''
   \<and> int (length (DiscussionLog.Content
                    (entriesSince demoDB (snd (demoRun answering 1 2 None)) ! 0)))
       \<le> MaxCharLimit (debate 1 2)"
proof -
  let ?es = "entriesSince demoDB (snd (demoRun answering 1 2 None))"
  have "0 < length ?es" by code_simp
  then have m: "?es ! 0 \<in> set ?es" by (rule nth_mem)
  have n: "\<not> IsModerator (?es ! 0)" by code_simp
  have s: "DiscussionLog.Status (?es ! 0) = ''success''" by code_simp
  have c: "DiscussionLog.Content (?es ! 0) = ''An''" by code_simp
  from participant_success_within_limit
         [of "snd (demoRun answering 1 2 None)" answering demoDB "debate 1 2" "[ann, bob]"
             None "?es ! 0"] m n s
  have "int (length (DiscussionLog.Content (?es ! 0))) \<le> MaxCharLimit (debate 1 2)"
    by (simp add: demoRun_def)
  with m n s c show ?thesis by simp
qed

text \<open>
  Claim C3 as stated fails for a moderator interjection: with the limit 2, the opening
  remark is stored in full, with the status \<open>success\<close>.
\<close>

theorem moderator_entry_exceeds_limit:
  "IsModerator (entriesSince demoDB (snd (demoRun answering 1 2 (Some moe))) ! 0)
   \<and> DiscussionLog.Status (entriesSince demoDB (snd (demoRun answering 1 2 (Some moe))) ! 0)
       = ''success''
   \<and> DiscussionLog.Content (entriesSince demoDB (snd (demoRun answering 1 2 (Some moe))) ! 0)
       = ''[Moderator - Opening Remarks]\<newline>Moe''
   \<and> \<not> int (length (DiscussionLog.Content
                       (entriesSince demoDB (snd (demoRun answering 1 2 (Some moe))) ! 0)))
         \<le> MaxCharLimit (debate 1 2)"
  by code_simp

text \<open>
  The retry operation does not cut the content either: the discussion read back from the
  database has the limit 0, and the answer \<open>Ann\<close> is stored in full.
\<close>

lemma retry_entry_not_truncated:
  "map (\<lambda>l. (DiscussionLog.Status l, DiscussionLog.Content l))
     (t_discussion_logs (snd (RetryFailedAgent answering demoDB 1 1)))
   = [(''success'', ''Ann'')]
   \<and> map MaxCharLimit (case GetDiscussion demoDB 1 of Inl e \<Rightarrow> [] | Inr d \<Rightarrow> [d]) = [0]"
  by code_simp

subsection \<open>The number of participant entries\<close>

text \<open>
  The count when the character limit is not negative. For \<open>N\<close> participants and the
  round count \<open>R\<close> (3 when the configured count is not positive), the run stores at least
  \<open>N\<close> and at most \<open>N \<times> R\<close> participant entries, without a moderator and with one.
\<close>

theorem participant_entries_bounds:
  assumes "st = snd (executeDebate CallAgent db discussion agents moderator)"
    and "0 \<le> MaxCharLimit discussion"
    and "R = (if MaxRounds discussion \<le> 0 then 3 else MaxRounds discussion)"
  shows "int (length agents) \<le> int (length (filter (\<lambda>l. \<not> IsModerator l) (entriesSince db st)))
    \<and> int (length (filter (\<lambda>l. \<not> IsModerator l) (entriesSince db st))) \<le> int (length agents) * R"
proof -
  let ?s0 = "case moderator of
               Some m \<Rightarrow> snd (callModerator CallAgent discussion m ''opening'' [] (initExec db))
             | None \<Rightarrow> initExec db"
  let ?L = "roundLoop CallAgent discussion agents moderator R 1 ?s0"
  have R1: "1 \<le> R" using assms(3) by simp
  from roundLoop_turns [of CallAgent discussion agents moderator R 1 ?s0]
  obtain added where a': "turns ?L = turns ?s0 @ added
     \<and> int (length added) \<le> int (length agents) * max 0 (R + 1 - 1)
     \<and> (0 \<le> MaxCharLimit discussion \<and> \<not> panicked ?s0 \<longrightarrow>
          \<not> panicked ?L \<and> (1 \<le> R \<longrightarrow> length agents \<le> length added))" ..
  then have a: "turns ?L = added" "int (length added) \<le> int (length agents) * R"
    "\<not> panicked ?L" "length agents \<le> length added"
    using R1 assms(2) by (simp_all add: opening_state)
  have ts: "turns st = added" "\<not> panicked st"
    using a(1,3) unfolding assms(1) executeDebate_turns assms(3) by simp_all
  from runInv_executeDebate [of discussion db CallAgent agents moderator]
  have i: "filter (\<lambda>l. \<not> IsModerator l) (entriesSince db st) = List.map_filter entry (turns st)"
    and p: "panicked st \<longleftrightarrow> (\<exists>t \<in> set (turns st). entry t = None)"
    unfolding assms(1) runInv_def entriesSince_def by auto
  from p ts(2) have "\<forall>t \<in> set (turns st). entry t \<noteq> None" by simp
  then have "length (List.map_filter entry (turns st)) = length (turns st)"
    by (rule map_filter_entry_length)
  with i ts(1) have n: "length (filter (\<lambda>l. \<not> IsModerator l) (entriesSince db st)) = length added"
    by simp
  from a(2,4) n show ?thesis by simp
qed

text \<open>An instance: two answering participants, no moderator, two rounds: four entries.\<close>

theorem participant_entries_bounds_witness:
  "0 \<le> MaxCharLimit (debate 2 100)
   \<and> int (length [ann, bob])
        \<le> int (length (filter (\<lambda>l. \<not> IsModerator l)
                         (entriesSince demoDB (snd (demoRun answering 2 100 None)))))
   \<and> int (length (filter (\<lambda>l. \<not> IsModerator l)
                    (entriesSince demoDB (snd (demoRun answering 2 100 None)))))
        \<le> int (length [ann, bob]) * 2
   \<and> length (entriesSince demoDB (snd (demoRun answering 2 100 None))) = 4"
proof -
  have 1: "0 \<le> MaxCharLimit (debate 2 100)" by (simp add: debate_def)
  have 2: "2 = (if MaxRounds (debate 2 100) \<le> 0 then 3 else MaxRounds (debate 2 100))"
    by (simp add: debate_def)
  have 3: "length (entriesSince demoDB (snd (demoRun answering 2 100 None))) = 4"
    by code_simp
  from participant_entries_bounds
         [of "snd (demoRun answering 2 100 None)" answering demoDB "debate 2 100"
             "[ann, bob]" None 2, OF _ 1 2] 1 3
  show ?thesis by (simp add: demoRun_def)
qed

text \<open>
  Claim C7. For every debate with \<open>N\<close> participants, no moderator and the round count
  \<open>R\<close> (3 when the configured count is unset or not positive), the scheduler produces at
  least \<open>N\<close> and at most \<open>N \<times> R\<close> participant-turn entries.

  The code misses the lower bound when the configured character limit is negative and a
  participant answers. Under the comment \<open>Strictly enforce character limit\<close> the test
  \<open>len(content) > discussion.MaxCharLimit\<close> then holds for every content, and the slice
  \<open>content[:discussion.MaxCharLimit]\<close> that it guards panics: the run is aborted before
  the entry is stored, and the discussion is marked as failed. The round count has a
  fallback for a value that is not positive; the limit has none, and \<open>RunDebate\<close> stores
  the limit it is given. Two participants who answer, two rounds, the limit -1: no entry
  is stored, where the claim has at least two.
\<close>

theorem negative_limit_aborts_run:
  "entriesSince demoDB (snd (demoRun answering 2 (- 1) None)) = []
   \<and> panicked (snd (demoRun answering 2 (- 1) None))
   \<and> Discussion.Status (fst (demoRun answering 2 (- 1) None)) = ''failed''
   \<and> \<not> int (length [ann, bob])
         \<le> int (length (filter (\<lambda>l. \<not> IsModerator l)
                          (entriesSince demoDB (snd (demoRun answering 2 (- 1) None)))))"
  by code_simp

subsection \<open>A round without a success\<close>

text \<open>
  Claim C6. If every participant turn of round 1 ends with an entry that is not a
  success, then the run has no turn of any later round, whatever the configured round
  count: all its turns are those of round 1, one for each participant; and the final
  summary of the debate, which is marked as completed, is the fixed sentence.
\<close>

theorem failed_first_round_ends_debate:
  assumes run: "executeDebate CallAgent db discussion agents moderator = (discussion', st)"
    and fail: "\<forall>t \<in> set (turns st). turnRound t = 1 \<longrightarrow>
                 (\<exists>e. entry t = Some e \<and> DiscussionLog.Status e \<noteq> ''success'')"
  shows "(\<forall>t \<in> set (turns st). turnRound t = 1)
    \<and> length (turns st) = length agents
    \<and> roundCount st = 1
    \<and> FinalSummary discussion' = ''No responses were generated during this debate.''
    \<and> Discussion.Status discussion' = ''completed''"
proof -
  let ?s0 = "case moderator of
               Some m \<Rightarrow> snd (callModerator CallAgent discussion m ''opening'' [] (initExec db))
             | None \<Rightarrow> initExec db"
  let ?R = "if MaxRounds discussion \<le> 0 then 3 else MaxRounds discussion"
  let ?s1 = "runRound CallAgent discussion agents moderator 1 ?s0"
  let ?c = "?s1\<lparr>roundCount := roundCount ?s1 + 1\<rparr>"
  let ?L = "roundLoop CallAgent discussion agents moderator ?R 1 ?s0"
  have R1: "1 \<le> ?R" by simp
  have st: "st = snd (executeDebate CallAgent db discussion agents moderator)"
    by (simp add: run)
  from runRound_turns [of CallAgent discussion agents moderator 1 ?s0]
  obtain a1 where a1': "turns ?s1 = turns ?s0 @ a1
     \<and> (\<forall>t \<in> set a1. turnRound t = 1)
     \<and> length a1 \<le> length agents
     \<and> (\<not> panicked ?s1 \<longrightarrow> length a1 = length agents)
     \<and> (roundActive ?s1
          \<longleftrightarrow> (\<exists>t \<in> set a1. \<exists>e. entry t = Some e \<and> DiscussionLog.Status e = ''success''))
     \<and> (panicked ?s1 \<longleftrightarrow> panicked ?s0 \<or> (\<exists>t \<in> set a1. entry t = None))
     \<and> (0 \<le> MaxCharLimit discussion \<longrightarrow> (\<forall>t \<in> set a1. entry t \<noteq> None))
     \<and> roundCount ?s1 = roundCount ?s0" ..
  then have a1: "turns ?s1 = a1" "\<forall>t \<in> set a1. turnRound t = 1"
    "\<not> panicked ?s1 \<longrightarrow> length a1 = length agents"
    "roundActive ?s1
       \<longleftrightarrow> (\<exists>t \<in> set a1. \<exists>e. entry t = Some e \<and> DiscussionLog.Status e = ''success'')"
    "panicked ?s1 \<longleftrightarrow> (\<exists>t \<in> set a1. entry t = None)"
    "roundCount ?s1 = 1"
    by (simp_all add: opening_state)
  have sub: "set a1 \<subseteq> set (turns st)"
  proof (cases "panicked ?s1 \<or> \<not> roundActive ?s1")
    case True
    then have "?L = ?s1" by (subst roundLoop.simps) (auto simp: Let_def)
    then show ?thesis using a1(1) unfolding st executeDebate_turns by simp
  next
    case False
    then have u: "?L = roundLoop CallAgent discussion agents moderator ?R (1 + 1) ?c"
      by (subst roundLoop.simps) (simp add: Let_def)
    from roundLoop_turns [of CallAgent discussion agents moderator ?R "1 + 1" ?c]
    obtain a2 where "turns (roundLoop CallAgent discussion agents moderator ?R (1 + 1) ?c)
                       = turns ?c @ a2
     \<and> int (length a2) \<le> int (length agents) * max 0 (?R + 1 - (1 + 1))
     \<and> (0 \<le> MaxCharLimit discussion \<and> \<not> panicked ?c \<longrightarrow>
          \<not> panicked (roundLoop CallAgent discussion agents moderator ?R (1 + 1) ?c)
          \<and> (1 + 1 \<le> ?R \<longrightarrow> length agents \<le> length a2))" ..
    then have "turns ?L = a1 @ a2" using a1(1) unfolding u by simp
    then show ?thesis unfolding st executeDebate_turns by simp
  qed
  have ok: "\<forall>t \<in> set a1. \<exists>e. entry t = Some e \<and> DiscussionLog.Status e \<noteq> ''success''"
    using sub fail a1(2) by blast
  then have np: "\<not> panicked ?s1" and na: "\<not> roundActive ?s1"
    unfolding a1(4,5) by fastforce+
  have L: "?L = ?s1" using na by (subst roundLoop.simps) (simp add: Let_def)
  have i: "runInv discussion db ?s1"
    by (rule runInv_runRound) (cases moderator; simp add: runInv_init runInv_callModerator)
  have "transcript (turns ?s1) = []"
    by (rule transcript_no_success) (use ok a1(1) in auto)
  with i have ctx: "debateContext ?s1 = []" by (simp add: runInv_def)
  have t: "turns st = a1" "roundCount st = 1"
    unfolding st executeDebate_turns L using a1(1,6) by simp_all
  have d: "discussion' = fst (executeDebate CallAgent db discussion agents moderator)"
    by (simp add: run)
  have f: "FinalSummary discussion' = ''No responses were generated during this debate.''
           \<and> Discussion.Status discussion' = ''completed''"
    unfolding d executeDebate_def Let_def L
    using np ctx by (cases moderator) (simp_all add: generateSummary_def)
  from t a1(2,3) np f show ?thesis by simp
qed

text \<open>
  An instance: every call exceeds its deadline, three rounds are configured, and the run
  ends after the two turns of round 1.
\<close>

theorem failed_first_round_ends_debate_witness:
  "map (\<lambda>t. (turnRound t, map_option DiscussionLog.Status (entry t)))
     (turns (snd (demoRun timingOut 3 100 None)))
   = [(1, Some ''error''), (1, Some ''error'')]
   \<and> length (turns (snd (demoRun timingOut 3 100 None))) = length [ann, bob]
   \<and> MaxRounds (debate 3 100) = 3
   \<and> FinalSummary (fst (demoRun timingOut 3 100 None))
       = ''No responses were generated during this debate.''
   \<and> Discussion.Status (fst (demoRun timingOut 3 100 None)) = ''completed''"
proof -
  have e: "map (\<lambda>t. (turnRound t, map_option DiscussionLog.Status (entry t)))
             (turns (snd (demoRun timingOut 3 100 None)))
           = [(1, Some ''error''), (1, Some ''error'')]"
    by code_simp
  have h: "\<forall>t \<in> set (turns (snd (demoRun timingOut 3 100 None))). turnRound t = 1 \<longrightarrow>
       (\<exists>e. entry t = Some e \<and> DiscussionLog.Status e \<noteq> ''success'')"
  proof
    fix t assume "t \<in> set (turns (snd (demoRun timingOut 3 100 None)))"
    then have "(turnRound t, map_option DiscussionLog.Status (entry t))
                 \<in> set (map (\<lambda>t. (turnRound t, map_option DiscussionLog.Status (entry t)))
                          (turns (snd (demoRun timingOut 3 100 None))))"
      by simp
    then have "map_option DiscussionLog.Status (entry t) = Some ''error''"
      unfolding e by auto
    then show "turnRound t = 1 \<longrightarrow>
       (\<exists>e. entry t = Some e \<and> DiscussionLog.Status e \<noteq> ''success'')"
      by (cases "entry t") auto
  qed
  from failed_first_round_ends_debate
         [of timingOut demoDB "debate 3 100" "[ann, bob]" None
             "fst (demoRun timingOut 3 100 None)" "snd (demoRun timingOut 3 100 None)"] h
  have "length (turns (snd (demoRun timingOut 3 100 None))) = length [ann, bob]
        \<and> FinalSummary (fst (demoRun timingOut 3 100 None))
          = ''No responses were generated during this debate.''
        \<and> Discussion.Status (fst (demoRun timingOut 3 100 None)) = ''completed''"
    by (simp add: demoRun_def)
  with e show ?thesis by (simp add: debate_def)
qed

subsection \<open>The status of an entry\<close>

lemma agentTurn_failed_call:
  assumes "snd (CallAgent (ncalls st) agent
                  (if round > 1 then buildRoundPrompt discussion round (int i + 1) (int n)
                   else buildPrompt discussion) (debateContext st)) = Some err"
  shows "\<exists>l. entry (last (turns (agentTurn CallAgent discussion moderator round n i agent st)))
               = Some l
            \<and> DiscussionLog.Status l = ''error''"
proof -
  obtain response where c: "CallAgent (ncalls st) agent
                  (if round > 1 then buildRoundPrompt discussion round (int i + 1) (int n)
                   else buildPrompt discussion) (debateContext st) = (response, Some err)"
    using assms by (metis prod.collapse)
  define e where "e = \<lparr>DiscussionLog.ID = seq_discussion_logs (database st) + 1,
                 DiscussionID = Discussion.ID discussion, AgentID = Agent.ID agent,
                 Content = (case Some err of
                              Some msg \<Rightarrow> ''Error: '' @ msg
                            | None \<Rightarrow>
                                if \<not> Success response then ''Error: '' @ ErrorMessage response
                                else if int (length (AgentResponse.Content response))
                                          > MaxCharLimit discussion
                                then take (nat (MaxCharLimit discussion))
                                       (AgentResponse.Content response)
                                else AgentResponse.Content response),
                 Status = (if Some err = None \<and> Success response then ''success''
                           else ''error''),
                 ResponseTime = AgentResponse.ResponseTime response, IsModerator = False\<rparr>"
  define st' where "st' = st\<lparr>ncalls := ncalls st + 1,
                roundActive := (roundActive st \<or> DiscussionLog.Status e = ''success''),
                debateContext :=
                  (if DiscussionLog.Status e = ''success''
                   then (if debateContext st \<noteq> [] then debateContext st @ ''\<newline>\<newline>''
                         else debateContext st)
                        @ contextHeader round agent @ ''\<newline>'' @ DiscussionLog.Content e
                   else debateContext st),
                database := (database st)
                  \<lparr>t_discussion_logs := t_discussion_logs (database st) @ [e],
                   seq_discussion_logs := seq_discussion_logs (database st) + 1\<rparr>,
                events := events st @ [LogEvent e],
                turns := turns st @ [\<lparr>turnRound = round, speaker = agent,
                                      priorContext = debateContext st, entry = Some e\<rparr>]\<rparr>"
  have np: "\<not> (Some err = None \<and> Success response
              \<and> int (length (AgentResponse.Content response)) > MaxCharLimit discussion
              \<and> MaxCharLimit discussion < 0)" by simp
  have u: "agentTurn CallAgent discussion moderator round n i agent st =
           (case moderator of
              Some m \<Rightarrow>
                if int i < int n - 1
                then snd (callModerator CallAgent discussion m ''interim''
                            (AgentResponse.Content response) st')
                else st'
            | None \<Rightarrow> st')"
    by (rule agentTurn_unfold [where response = response and err = "Some err" and e = e])
       (rule c np e_def st'_def)+
  have "turns (agentTurn CallAgent discussion moderator round n i agent st) = turns st'"
    unfolding u by (cases moderator) simp_all
  then show ?thesis by (simp add: st'_def e_def)
qed

lemma callModerator_failed_call:
  assumes "snd (CallAgent (ncalls st) m
                  (buildModeratorPrompt discussion moderatorType contextStr) []) = Some err"
  shows "DiscussionLog.Status
           (last (t_discussion_logs
                    (database (snd (callModerator CallAgent discussion m moderatorType
                                      contextStr st))))) = ''error''"
proof -
  obtain response where "CallAgent (ncalls st) m
                  (buildModeratorPrompt discussion moderatorType contextStr) []
                    = (response, Some err)"
    using assms by (metis prod.collapse)
  then show ?thesis
    by (simp add: callModerator_def Let_def saveLog_checked)
qed

lemma RetryFailedAgent_entries:
  "\<exists>new. t_discussion_logs (snd (RetryFailedAgent CallAgent db discussionID agentID))
            = t_discussion_logs db @ new
     \<and> (\<forall>l \<in> set new. DiscussionLog.Status l = ''success'' \<or> DiscussionLog.Status l = ''error'')"
proof (cases "GetDiscussion db discussionID")
  case (Inl e)
  then show ?thesis by (intro exI [of _ "[]"]) (simp add: RetryFailedAgent_def)
next
  case d: (Inr discussion)
  show ?thesis
  proof (cases "Discussion.Status discussion \<noteq> ''running''")
    case True
    with d show ?thesis by (intro exI [of _ "[]"]) (simp add: RetryFailedAgent_def)
  next
    case running: False
    show ?thesis
    proof (cases "GetAgent db agentID")
      case (Inl e)
      with d running show ?thesis by (intro exI [of _ "[]"]) (simp add: RetryFailedAgent_def)
    next
      case a: (Inr agent)
      obtain response err where c: "CallAgent 0 agent (buildPrompt discussion)
               (retryContext (GetDiscussionLogs db discussionID) []) = (response, err)"
        by (cases "CallAgent 0 agent (buildPrompt discussion)
               (retryContext (GetDiscussionLogs db discussionID) [])") blast
      let ?status = "if err = None \<and> Success response then ''success'' else ''error''"
      have "\<exists>l. t_discussion_logs (snd (RetryFailedAgent CallAgent db discussionID agentID))
                  = t_discussion_logs db @ [l]
               \<and> DiscussionLog.Status l = ?status"
        using d running a c
        by (cases err)
           (simp_all add: RetryFailedAgent_def Let_def InsertDiscussionLog_def checkLogStatus_def)
      then obtain l where "t_discussion_logs (snd (RetryFailedAgent CallAgent db discussionID agentID))
                  = t_discussion_logs db @ [l] \<and> DiscussionLog.Status l = ?status" ..
      then show ?thesis by (intro exI [of _ "[l]"]) simp
    qed
  qed
qed

lemma RetryFailedAgent_failed_call:
  assumes "GetDiscussion db discussionID = Inr discussion"
    and "Discussion.Status discussion = ''running''"
    and "GetAgent db agentID = Inr agent"
    and "snd (CallAgent 0 agent (buildPrompt discussion)
                (retryContext (GetDiscussionLogs db discussionID) [])) = Some err"
  shows "\<exists>l. t_discussion_logs (snd (RetryFailedAgent CallAgent db discussionID agentID))
                = t_discussion_logs db @ [l]
             \<and> DiscussionLog.Status l = ''error''"
proof -
  obtain response where c: "CallAgent 0 agent (buildPrompt discussion)
           (retryContext (GetDiscussionLogs db discussionID) []) = (response, Some err)"
    using assms(4)
    by (cases "CallAgent 0 agent (buildPrompt discussion)
           (retryContext (GetDiscussionLogs db discussionID) [])") simp
  show ?thesis
    using assms(1-3) c
    by (simp add: RetryFailedAgent_def Let_def InsertDiscussionLog_def checkLogStatus_def)
qed

text \<open>
  Claim C10. Every log entry that a run of the debate or the retry operation writes has
  the status \<open>success\<close> or \<open>error\<close>, so never \<open>timeout\<close>. A call of the adapter that fails,
  as a call does that exceeds its deadline, is recorded with the status \<open>error\<close>, for a
  participant's turn as for a moderator's interjection.
\<close>

theorem entry_status_success_or_error:
  "(\<forall>l \<in> set (entriesSince db (snd (executeDebate CallAgent db discussion agents moderator))).
      DiscussionLog.Status l = ''success'' \<or> DiscussionLog.Status l = ''error'')
   \<and> (\<forall>l \<in> set (drop (length (t_discussion_logs db))
                    (t_discussion_logs (snd (RetryFailedAgent CallAgent db discussionID agentID)))).
        DiscussionLog.Status l = ''success'' \<or> DiscussionLog.Status l = ''error'')
   \<and> (\<forall>err. snd (CallAgent (ncalls st) agent
                    (if round > 1 then buildRoundPrompt discussion round (int i + 1) (int n)
                     else buildPrompt discussion) (debateContext st)) = Some err
        \<longrightarrow> (\<exists>l. entry (last (turns (agentTurn CallAgent discussion moderator round n i
                                         agent st))) = Some l
                 \<and> DiscussionLog.Status l = ''error''))
   \<and> (\<forall>err. snd (CallAgent (ncalls st) agent
                    (buildModeratorPrompt discussion moderatorType contextStr) []) = Some err
        \<longrightarrow> DiscussionLog.Status
              (last (t_discussion_logs
                       (database (snd (callModerator CallAgent discussion agent moderatorType
                                         contextStr st))))) = ''error'')"
proof (intro conjI)
  show "\<forall>l \<in> set (entriesSince db (snd (executeDebate CallAgent db discussion agents moderator))).
      DiscussionLog.Status l = ''success'' \<or> DiscussionLog.Status l = ''error''"
    using runInv_executeDebate [of discussion db CallAgent agents moderator]
    unfolding runInv_def entriesSince_def by auto
next
  from RetryFailedAgent_entries [of CallAgent db discussionID agentID]
  obtain new where "t_discussion_logs (snd (RetryFailedAgent CallAgent db discussionID agentID))
            = t_discussion_logs db @ new
     \<and> (\<forall>l \<in> set new. DiscussionLog.Status l = ''success'' \<or> DiscussionLog.Status l = ''error'')" ..
  then show "\<forall>l \<in> set (drop (length (t_discussion_logs db))
                    (t_discussion_logs (snd (RetryFailedAgent CallAgent db discussionID agentID)))).
        DiscussionLog.Status l = ''success'' \<or> DiscussionLog.Status l = ''error''"
    by simp
next
  show "\<forall>err. snd (CallAgent (ncalls st) agent
                    (if round > 1 then buildRoundPrompt discussion round (int i + 1) (int n)
                     else buildPrompt discussion) (debateContext st)) = Some err
        \<longrightarrow> (\<exists>l. entry (last (turns (agentTurn CallAgent discussion moderator round n i
                                         agent st))) = Some l
                 \<and> DiscussionLog.Status l = ''error'')"
    by (intro allI impI) (rule agentTurn_failed_call)
next
  show "\<forall>err. snd (CallAgent (ncalls st) agent
                    (buildModeratorPrompt discussion moderatorType contextStr) []) = Some err
        \<longrightarrow> DiscussionLog.Status
              (last (t_discussion_logs
                       (database (snd (callModerator CallAgent discussion agent moderatorType
                                         contextStr st))))) = ''error''"
    by (intro allI impI) (rule callModerator_failed_call)
qed

text \<open>
  An instance: every call exceeds its deadline; the first entry of the run, and the entry
  of a retry, have the status \<open>error\<close>.
\<close>

theorem entry_status_success_or_error_witness:
  "entriesSince demoDB (snd (demoRun timingOut 3 100 None)) ! 0
     \<in> set (entriesSince demoDB (snd (demoRun timingOut 3 100 None)))
   \<and> (DiscussionLog.Status (entriesSince demoDB (snd (demoRun timingOut 3 100 None)) ! 0)
        = ''success''
       \<or> DiscussionLog.Status (entriesSince demoDB (snd (demoRun timingOut 3 100 None)) ! 0)
        = ''error'')
   \<and> map DiscussionLog.Status (entriesSince demoDB (snd (demoRun timingOut 3 100 None)))
       = [''error'', ''error'']
   \<and> map DiscussionLog.Status (t_discussion_logs (snd (RetryFailedAgent timingOut demoDB 1 1)))
       = [''error'']"
proof -
  let ?es = "entriesSince demoDB (snd (demoRun timingOut 3 100 None))"
  have "0 < length ?es" by code_simp
  then have m: "?es ! 0 \<in> set ?es" by (rule nth_mem)
  from entry_status_success_or_error
         [of demoDB timingOut "debate 3 100" "[ann, bob]" None] m
  have s: "DiscussionLog.Status (?es ! 0) = ''success''
           \<or> DiscussionLog.Status (?es ! 0) = ''error''"
    unfolding demoRun_def by blast
  have a: "map DiscussionLog.Status ?es = [''error'', ''error'']" by code_simp
  have r: "map DiscussionLog.Status
             (t_discussion_logs (snd (RetryFailedAgent timingOut demoDB 1 1))) = [''error'']"
    by code_simp
  from m s a r show ?thesis by simp
qed

section \<open>Properties of starting and stopping\<close>

text \<open>
  Claim C8. Stopping a discussion whose stored status is \<open>running\<close> succeeds and stores the
  status \<open>completed\<close>, leaving the other columns as they were; a second stop is then
  rejected with an error and leaves the database unchanged. Stopping a discussion whose
  status is not \<open>running\<close>, or one that does not exist, is rejected with an error and
  leaves the database unchanged.
\<close>

theorem StopDiscussion_running_only:
  "(\<forall>r. t_discussions db discussionID = Some r \<and> col_status r = ''running'' \<longrightarrow>
      (\<exists>db'. StopDiscussion db discussionID = (None, db')
         \<and> db' = db\<lparr>t_discussions :=
                      (t_discussions db)(discussionID \<mapsto> r\<lparr>col_status := ''completed''\<rparr>)\<rparr>
         \<and> (\<exists>err. StopDiscussion db' discussionID = (Some err, db'))))
   \<and> (\<forall>r. t_discussions db discussionID = Some r \<and> col_status r \<noteq> ''running'' \<longrightarrow>
        (\<exists>err. StopDiscussion db discussionID = (Some err, db)))
   \<and> (t_discussions db discussionID = None \<longrightarrow>
        (\<exists>err. StopDiscussion db discussionID = (Some err, db)))"
proof (intro conjI allI impI)
  fix r
  assume a: "t_discussions db discussionID = Some r \<and> col_status r = ''running''"
  let ?db' = "db\<lparr>t_discussions :=
                   (t_discussions db)(discussionID \<mapsto> r\<lparr>col_status := ''completed''\<rparr>)\<rparr>"
  have row: "\<lparr>col_topic = col_topic r, col_final_summary = col_final_summary r,
              col_status = ''completed'', col_agent_ids = col_agent_ids r,
              col_moderator_id = col_moderator_id r\<rparr> = r\<lparr>col_status := ''completed''\<rparr>"
    by (cases r) simp
  have 1: "StopDiscussion db discussionID = (None, ?db')"
    using a by (simp add: StopDiscussion_def GetDiscussion_def UpdateDiscussion_def
                  discussionRow_def checkDiscussionStatus_def row)
  have 2: "StopDiscussion ?db' discussionID = (Some ''discussion is not running'', ?db')"
    by (simp add: StopDiscussion_def GetDiscussion_def)
  from 1 2 show "\<exists>db'. StopDiscussion db discussionID = (None, db')
         \<and> db' = db\<lparr>t_discussions :=
                      (t_discussions db)(discussionID \<mapsto> r\<lparr>col_status := ''completed''\<rparr>)\<rparr>
         \<and> (\<exists>err. StopDiscussion db' discussionID = (Some err, db'))"
    by blast
next
  fix r
  assume "t_discussions db discussionID = Some r \<and> col_status r \<noteq> ''running''"
  then show "\<exists>err. StopDiscussion db discussionID = (Some err, db)"
    by (simp add: StopDiscussion_def GetDiscussion_def)
next
  assume "t_discussions db discussionID = None"
  then show "\<exists>err. StopDiscussion db discussionID = (Some err, db)"
    by (simp add: StopDiscussion_def GetDiscussion_def)
qed

text \<open>An instance: the running discussion of the example database, stopped twice.\<close>

theorem StopDiscussion_running_only_witness:
  "t_discussions demoDB 1 = Some (discussionRow (debate 2 100))
   \<and> col_status (discussionRow (debate 2 100)) = ''running''
   \<and> fst (StopDiscussion demoDB 1) = None
   \<and> map_option col_status (t_discussions (snd (StopDiscussion demoDB 1)) 1) = Some ''completed''
   \<and> StopDiscussion (snd (StopDiscussion demoDB 1)) 1
       = (Some ''discussion is not running'', snd (StopDiscussion demoDB 1))"
proof -
  have 1: "t_discussions demoDB 1 = Some (discussionRow (debate 2 100))"
    by (simp add: demoDB_def)
  have 2: "col_status (discussionRow (debate 2 100)) = ''running''"
    by (simp add: discussionRow_def debate_def)
  from StopDiscussion_running_only [of demoDB 1] 1 2
  obtain db' where s: "StopDiscussion demoDB 1 = (None, db')"
    and d: "db' = demoDB\<lparr>t_discussions :=
                    (t_discussions demoDB)
                      (1 \<mapsto> (discussionRow (debate 2 100))\<lparr>col_status := ''completed''\<rparr>)\<rparr>"
    and "\<exists>err. StopDiscussion db' 1 = (Some err, db')"
    by blast
  then obtain err where e: "StopDiscussion db' 1 = (Some err, db')" by blast
  have "err = ''discussion is not running''"
    using e unfolding d
    by (simp add: StopDiscussion_def GetDiscussion_def split: if_splits)
  with s d e 1 2 show ?thesis by simp
qed

lemma lookupAgents_unknown:
  "a \<in> set agentIDs \<Longrightarrow> t_agents db a = None \<Longrightarrow> fst (lookupAgents db agentIDs) \<noteq> []"
  by (induction agentIDs) (auto simp: GetAgent_def split: prod.splits sum.splits)

lemma getAgents_unknown:
  "a \<in> set agentIDs \<Longrightarrow> t_agents db a = None \<Longrightarrow> \<exists>err. getAgents db agentIDs = Inl err"
  using lookupAgents_unknown [of a agentIDs db]
  by (auto simp: getAgents_def split: prod.splits list.splits)

text \<open>
  Claim C9. If a participant identifier or the moderator identifier given to \<open>RunDebate\<close>
  is not that of an agent in the database, the call returns an error and leaves the
  database as it was: no discussion is inserted, so none is marked as running.
\<close>

theorem RunDebate_unknown_agent:
  assumes "(\<exists>a \<in> set agentIDs. t_agents db a = None)
           \<or> (\<exists>m. moderatorID = Some m \<and> t_agents db m = None)"
  shows "\<exists>err. RunDebate db topic agentIDs moderatorID maxRounds language maxCharLimit
                 = (Inl err, db)"
proof (cases "getAgents db agentIDs")
  case (Inl err)
  then show ?thesis by (simp add: RunDebate_def)
next
  case (Inr found)
  with assms getAgents_unknown [of _ agentIDs db]
  obtain m where "moderatorID = Some m" "t_agents db m = None" by fastforce
  with Inr show ?thesis by (simp add: RunDebate_def GetAgent_def)
qed

text \<open>
  An instance: the identifier 7 is unknown, as a participant and as the moderator. With
  known identifiers the discussion is inserted as running.
\<close>

theorem RunDebate_unknown_agent_witness:
  "t_agents demoDB 7 = None
   \<and> RunDebate demoDB ''T'' [1, 7] None 2 ''en'' 100
       = (Inl ''failed to verify agents: agent not found'', demoDB)
   \<and> RunDebate demoDB ''T'' [1, 2] (Some 7) 2 ''en'' 100
       = (Inl ''failed to verify moderator: agent not found'', demoDB)
   \<and> map_option col_status
        (t_discussions (snd (RunDebate demoDB ''T'' [1, 2] (Some 3) 2 ''en'' 100)) 2)
       = Some ''running''"
proof -
  have h: "(\<exists>a \<in> set [1, 7]. t_agents demoDB a = None)
             \<or> (\<exists>m. None = Some m \<and> t_agents demoDB m = None)"
    by (simp add: demoDB_def)
  from RunDebate_unknown_agent [OF h, of "''T''" 2 "''en''" 100]
  obtain err where e: "RunDebate demoDB ''T'' [1, 7] None 2 ''en'' 100 = (Inl err, demoDB)"
    by blast
  have "err = ''failed to verify agents: agent not found''"
    using e by (simp add: RunDebate_def getAgents_def GetAgent_def demoDB_def)
  with e have 1: "RunDebate demoDB ''T'' [1, 7] None 2 ''en'' 100
       = (Inl ''failed to verify agents: agent not found'', demoDB)" by simp
  have 2: "RunDebate demoDB ''T'' [1, 2] (Some 7) 2 ''en'' 100
       = (Inl ''failed to verify moderator: agent not found'', demoDB)"
    by (simp add: RunDebate_def getAgents_def GetAgent_def demoDB_def)
  have 3: "map_option col_status
        (t_discussions (snd (RunDebate demoDB ''T'' [1, 2] (Some 3) 2 ''en'' 100)) 2)
       = Some ''running''"
    by (simp add: RunDebate_def getAgents_def GetAgent_def demoDB_def InsertDiscussion_def
          checkDiscussionStatus_def discussionRow_def Let_def)
  have "t_agents demoDB 7 = None" by (simp add: demoDB_def)
  with 1 2 3 show ?thesis by simp
qed

end
